theory Spec2Isabelle
  imports Complex_Main
begin

section \<open>Hourly power balance of the EnergyBalance scripts\<close>

text \<open>
  The four scripts (SwedenPowerBalance.py, SE300wind.py, SvK_EF_nuclear.py and
  SvK_EF_wind.py) keep one pandas frame \<open>df\<close> with one row per hour and fill it in a
  single forward loop. The frame is modelled as a list of rows (row label = position,
  which is what \<open>df.loc[i, ...]\<close> addresses when no row was dropped), a cell as a
  \<open>real\<close> (the scripts compute in floating point; rounding is not modelled), and the
  loop \<open>for i in range(1, len(df))\<close> as a \<open>fold\<close> over \<open>[1..<length df]\<close>.

  A column that a script creates by its first write exists in the model from the
  start; what it holds before the write (NaN in pandas) is unconstrained, and the loop
  writes row \<open>i - 1\<close> before it reads it.
\<close>

datatype error =
    EmptyFrame          \<comment> \<open>no row 0: pandas would enlarge the frame with a row of NaN,
                            which the real-number model does not represent\<close>
  | ZeroDivisionError   \<comment> \<open>\<open>def_store /= rtp_eff\<close> with \<open>rtp_eff = 0\<close>\<close>

text \<open>The module-level constants of the scripts; each script reads its own.\<close>

record config =
  wlim :: real
  wlim_high :: real
  wlim_low :: real
  constexp :: real
  impl :: real
  expl :: real
  elyscap :: real
  flexmax :: real
  dStore_InCap :: real
  dStore_OutCap :: real
  rtp_eff :: real
  H2drain :: real
  store0 :: real   \<comment> \<open>the literal \<open>20000\<close> of \<open>df.loc[0,'Store'] = 20000\<close>, taken as a
                       parameter so that other starting levels can be run\<close>

text \<open>
  Python's \<open>random\<close> module is library code: a generator state \<open>'g\<close>, \<open>random.seed\<close>
  and \<open>random.random\<close> are parameters of the model.
\<close>

record 'g prng =
  prng_seed :: "int \<Rightarrow> 'g"
  prng_random :: "'g \<Rightarrow> real \<times> 'g"

text \<open>A generator that replays a fixed list of draws, for running the model.\<close>

definition replay :: "real list \<Rightarrow> (real list) prng" where
  "replay us = \<lparr> prng_seed = (\<lambda>_. us),
                 prng_random = (\<lambda>g. case g of [] \<Rightarrow> (0, []) | u # g' \<Rightarrow> (u, g')) \<rparr>"

subsection \<open>The reservoir scripts: SwedenPowerBalance.py and SE300wind.py\<close>

record rrow =
  Date :: real      \<comment> \<open>\<open>x.timestamp()\<close>, seconds\<close>
  Wind :: real
  Tout :: real
  Nuclear :: real
  HoY :: real
  Inflow :: real
  Store :: real
  Pout :: real
  Waout :: real
  Import :: real
  Export :: real
  Pnet :: real
  Residual :: real
  Hydrogen :: real
  eStore :: real

text \<open>\<open>inflow()\<close>: hour of year, shifted to start on May 1, and the empirical formula.\<close>

definition py_mod :: "real \<Rightarrow> real \<Rightarrow> real" where
  "py_mod x m = x - m * of_int \<lfloor>x / m\<rfloor>"

definition inflow_formula :: "real \<Rightarrow> real" where
  "inflow_formula x = 0.00012 * x\<^sup>2 * exp (- ((x * 0.002) powr 0.9)) + 2.8"

definition inflow :: "rrow list \<Rightarrow> rrow list" where
  "inflow df =
     map (\<lambda>r. let h = Date r / 3600 - 438288;
                   h = py_mod (h + 5880) 8784
               in r\<lparr>HoY := h, Inflow := inflow_formula h\<rparr>) df"

text \<open>
  The loop body of \<open>balance()\<close> in SwedenPowerBalance.py, in the three parts its
  comments mark: the water balance equations (lines 124 to 129), the import/export
  balance equations (lines 131 to 134) and the exchange of water for import (lines 137
  to 143), where \<open>u\<close> is the value of \<open>random.random()\<close>.
\<close>

definition water_balance_SPB :: "config \<Rightarrow> real \<Rightarrow> real \<Rightarrow> real \<Rightarrow> real \<Rightarrow> real" where
  "water_balance_SPB c wind load con ostore =
    (let vlim = wlim c
     in if load - (wind + con) \<le> 0 then 2
        else if load - (wind + con) \<ge> wlim c then min vlim ostore
        else min (max (load - (wind + con)) 2) ostore)"

definition impexp_balance_SPB :: "config \<Rightarrow> real \<Rightarrow> real \<Rightarrow> real \<Rightarrow> real \<Rightarrow> real \<times> real" where
  "impexp_balance_SPB c wind load con water =
    (if load - (wind + con + water) \<ge> 0
     then (min (load - (wind + con + water)) (impl c), 0)
     else (0, min ((wind + con + water) - load) (expl c)))"

definition exchange_SPB :: "config \<Rightarrow> real \<Rightarrow> real \<Rightarrow> real \<Rightarrow> real \<Rightarrow> real \<times> real \<times> real" where
  "exchange_SPB c water imp ema_old u =
    (let imp_level = 1.1;
         alfa = 0.03;
         new_rand = u * imp_level * 2;
         ema = alfa * new_rand + (1 - alfa) * ema_old;
         rand_imp = max ((ema - imp_level) * 9 + imp_level) 0;
         rand_imp = min rand_imp (min water (impl c - imp))
     in (water - rand_imp, imp + rand_imp, ema))"

text \<open>One pass through the loop body: \<open>(water, imp, exp, ema)\<close> as line 143 leaves them.\<close>

definition hour_SPB ::
  "config \<Rightarrow> real \<Rightarrow> real \<Rightarrow> real \<Rightarrow> real \<Rightarrow> real \<Rightarrow> real \<Rightarrow> real \<times> real \<times> real \<times> real" where
  "hour_SPB c wind load con ostore ema_old u =
    (let water = water_balance_SPB c wind load con ostore
     in case impexp_balance_SPB c wind load con water of (imp, exp') \<Rightarrow>
          (case exchange_SPB c water imp ema_old u of (water, imp, ema) \<Rightarrow>
             (water, imp, exp', ema)))"

text \<open>The same parts of SE300wind.py (lines 125 to 144).\<close>

definition water_balance_SE300 :: "config \<Rightarrow> real \<Rightarrow> real \<Rightarrow> real \<Rightarrow> real \<Rightarrow> real" where
  "water_balance_SE300 c wind load con ostore =
    (if (wind + con) - load \<ge> 0 then 2
     else if (wind + con) - load \<le> - wlim c then min (wlim c) ostore
     else min (max (load - (wind + con)) 2) ostore)"

definition impexp_balance_SE300 :: "config \<Rightarrow> real \<Rightarrow> real \<Rightarrow> real \<Rightarrow> real \<Rightarrow> real \<times> real" where
  "impexp_balance_SE300 c wind load con water =
    (if (wind + con + water) - load \<le> 0
     then (min (load - (wind + con + water)) (impl c), 0)
     else (0, min ((wind + con + water) - load) (expl c)))"

definition exchange_SE300 :: "config \<Rightarrow> real \<Rightarrow> real \<Rightarrow> real \<Rightarrow> real \<Rightarrow> real \<times> real \<times> real" where
  "exchange_SE300 c water imp ema_old u =
    (let imp_level = 1.1;
         alfa = 0.03;
         new_rand = u * imp_level * 2;
         ema = alfa * new_rand + (1 - alfa) * ema_old;
         rand_imp = max ((ema - imp_level) * 9 + imp_level) 0;
         rand_imp = min rand_imp (min (water - 2) (impl c - imp))
     in (water - rand_imp, imp + rand_imp, ema))"

definition hour_SE300 ::
  "config \<Rightarrow> real \<Rightarrow> real \<Rightarrow> real \<Rightarrow> real \<Rightarrow> real \<Rightarrow> real \<Rightarrow> real \<times> real \<times> real \<times> real" where
  "hour_SE300 c wind load con ostore ema_old u =
    (let water = water_balance_SE300 c wind load con ostore
     in case impexp_balance_SE300 c wind load con water of (imp, exp') \<Rightarrow>
          (case exchange_SE300 c water imp ema_old u of (water, imp, ema) \<Rightarrow>
             (water, imp, exp', ema)))"

text \<open>
  The two scripts share the rest of \<open>balance()\<close>: the reads at the head of the loop
  body, the writes at its end, the initialisation of row 0 and the loop. The loop
  state is the frame, \<open>ema_old\<close> and the generator state; \<open>hour\<close> is the loop
  body's arithmetic (\<open>hour_SPB\<close> or \<open>hour_SE300\<close>).
\<close>

definition new_row :: "real \<Rightarrow> rrow \<Rightarrow> real \<times> real \<times> real \<times> real \<Rightarrow> rrow" where
  "new_row ostore r h =
    (case h of (water, imp, exp', ema) \<Rightarrow>
      let wind = Wind r;
          con = Nuclear r;
          inflow = Inflow r
      in r\<lparr> Store := ostore - water + inflow,
             Waout := water,
             Import := imp,
             Export := exp',
             Pout := wind + water + con + imp - exp',
             Pnet := wind + water + con + imp \<rparr>)"

definition step_reservoir ::
  "(config \<Rightarrow> real \<Rightarrow> real \<Rightarrow> real \<Rightarrow> real \<Rightarrow> real \<Rightarrow> real \<Rightarrow> real \<times> real \<times> real \<times> real)
     \<Rightarrow> 'g prng \<Rightarrow> config \<Rightarrow> nat \<Rightarrow> rrow list \<times> real \<times> 'g \<Rightarrow> rrow list \<times> real \<times> 'g" where
  "step_reservoir hour P c i s =
    (case s of (df, ema_old, g) \<Rightarrow>
      (case prng_random P g of (u, g') \<Rightarrow>
        let ostore = Store (df ! (i - 1));
            h = hour c (Wind (df ! i)) (Tout (df ! i)) (Nuclear (df ! i)) ostore ema_old u
        in (df[i := new_row ostore (df ! i) h], snd (snd (snd h)), g')))"

text \<open>Row 0 as \<open>balance()\<close> initialises it (lines 101 to 106).\<close>

definition init_row :: "config \<Rightarrow> rrow list \<Rightarrow> rrow list" where
  "init_row c df =
     df[0 := (df ! 0)\<lparr> Store := store0 c,
                        Pout := Tout (df ! 0),
                        Waout := 0,
                        Import := 0,
                        Export := 0,
                        Pnet := Tout (df ! 0) - constexp c \<rparr>]"

text \<open>
  \<open>balance()\<close>: \<open>g\<close> is the generator state the call finds; \<open>random.seed(5)\<close>
  replaces it. The result is the frame and the generator state the call leaves.
\<close>

definition balance_reservoir ::
  "(config \<Rightarrow> real \<Rightarrow> real \<Rightarrow> real \<Rightarrow> real \<Rightarrow> real \<Rightarrow> real \<Rightarrow> real \<times> real \<times> real \<times> real)
     \<Rightarrow> 'g prng \<Rightarrow> config \<Rightarrow> 'g \<Rightarrow> rrow list \<Rightarrow> error + (rrow list \<times> 'g)" where
  "balance_reservoir hour P c g df =
    (if df = [] then Inl EmptyFrame
     else
       let g0 = prng_seed P 5;
           imp_level = 1.1;
           ema_old = imp_level
       in (case fold (step_reservoir hour P c) [1..<length df] (init_row c df, ema_old, g0) of
             (df', ema, g') \<Rightarrow> Inr (df', g')))"

text \<open>The frame the loop leaves when the input has a row 0.\<close>

definition rows_reservoir ::
  "(config \<Rightarrow> real \<Rightarrow> real \<Rightarrow> real \<Rightarrow> real \<Rightarrow> real \<Rightarrow> real \<Rightarrow> real \<times> real \<times> real \<times> real)
     \<Rightarrow> 'g prng \<Rightarrow> config \<Rightarrow> rrow list \<Rightarrow> rrow list" where
  "rows_reservoir hour P c df =
     fst (fold (step_reservoir hour P c) [1..<length df] (init_row c df, 1.1, prng_seed P 5))"

text \<open>
  The loop state at the head of iteration \<open>i\<close>: the frame with rows \<open>1\<close> to
  \<open>i - 1\<close> written, \<open>ema_old\<close>, and the generator state from which the
  iteration draws \<open>random.random()\<close>.
\<close>

definition loop_state ::
  "(config \<Rightarrow> real \<Rightarrow> real \<Rightarrow> real \<Rightarrow> real \<Rightarrow> real \<Rightarrow> real \<Rightarrow> real \<times> real \<times> real \<times> real)
     \<Rightarrow> 'g prng \<Rightarrow> config \<Rightarrow> rrow list \<Rightarrow> nat \<Rightarrow> rrow list \<times> real \<times> 'g" where
  "loop_state hour P c df i =
     fold (step_reservoir hour P c) [1..<i] (init_row c df, 1.1, prng_seed P 5)"

definition balance_SPB ::
  "'g prng \<Rightarrow> config \<Rightarrow> 'g \<Rightarrow> rrow list \<Rightarrow> error + (rrow list \<times> 'g)" where
  "balance_SPB P c g df = balance_reservoir hour_SPB P c g df"

definition balance_SE300 ::
  "'g prng \<Rightarrow> config \<Rightarrow> 'g \<Rightarrow> rrow list \<Rightarrow> error + (rrow list \<times> 'g)" where
  "balance_SE300 P c g df = balance_reservoir hour_SE300 P c g df"

text \<open>
  After \<open>balance()\<close>: the residual column and the hydrogen loop. The loop state is the
  frame and the running totals (\<open>curtail\<close>, \<open>shortage\<close>; SE300wind.py adds
  \<open>curtailH2\<close> and \<open>H2out\<close>).
\<close>

definition residual_col :: "rrow list \<Rightarrow> rrow list" where
  "residual_col df = map (\<lambda>r. r\<lparr>Residual := Pout r - Tout r\<rparr>) df"

definition init_hydrogen :: "rrow list \<Rightarrow> rrow list" where
  "init_hydrogen df = df[0 := (df ! 0)\<lparr>Hydrogen := 0, eStore := 0\<rparr>]"

definition hstep_SPB :: "nat \<Rightarrow> rrow list \<times> real \<times> real \<Rightarrow> rrow list \<times> real \<times> real" where
  "hstep_SPB i s =
    (case s of (df, curtail, shortage) \<Rightarrow>
      let res = Residual (df ! i);
          es = eStore (df ! (i - 1)) + res
      in if res \<ge> 0
         then (df[i := (df ! i)\<lparr>eStore := es,
                                 Hydrogen := Hydrogen (df ! (i - 1)) + 0.02 * res\<rparr>],
               curtail + res, shortage)
         else (df[i := (df ! i)\<lparr>eStore := es,
                                 Hydrogen := Hydrogen (df ! (i - 1)) + 0.05 * res\<rparr>],
               curtail, shortage - res))"

definition hydrogen_SPB :: "rrow list \<Rightarrow> rrow list \<times> real \<times> real" where
  "hydrogen_SPB df =
     fold hstep_SPB [1..<length df] (init_hydrogen (residual_col df), 0, 0)"

definition hstep_SE300 ::
  "config \<Rightarrow> nat \<Rightarrow> rrow list \<times> real \<times> real \<times> real \<times> real
     \<Rightarrow> rrow list \<times> real \<times> real \<times> real \<times> real" where
  "hstep_SE300 c i s =
    (case s of (df, curtail, curtailH2, shortage, H2out) \<Rightarrow>
      let res = Residual (df ! i);
          es = eStore (df ! (i - 1)) + res
      in if res \<ge> 0
         then (df[i := (df ! i)\<lparr>eStore := es,
                  Hydrogen := Hydrogen (df ! (i - 1)) + 0.02 * min res (elyscap c)\<rparr>],
               curtail + res, curtailH2 + max (res - elyscap c) 0, shortage,
               H2out + 0.02 * res)
         else (df[i := (df ! i)\<lparr>eStore := es,
                  Hydrogen := Hydrogen (df ! (i - 1)) + 0.05 * res\<rparr>],
               curtail, curtailH2, shortage - res, H2out - 0.05 * res))"

definition hydrogen_SE300 ::
  "config \<Rightarrow> rrow list \<Rightarrow> rrow list \<times> real \<times> real \<times> real \<times> real" where
  "hydrogen_SE300 c df =
     fold (hstep_SE300 c) [1..<length df] (init_hydrogen (residual_col df), 0, 0, 0, 0)"

text \<open>The scripts from \<open>balance()\<close> on: the frame they leave.\<close>

definition main_SPB :: "'g prng \<Rightarrow> config \<Rightarrow> 'g \<Rightarrow> rrow list \<Rightarrow> error + rrow list" where
  "main_SPB P c g df =
    (case balance_SPB P c g df of
       Inl e \<Rightarrow> Inl e
     | Inr (df', g') \<Rightarrow> Inr (fst (hydrogen_SPB df')))"

definition main_SE300 :: "'g prng \<Rightarrow> config \<Rightarrow> 'g \<Rightarrow> rrow list \<Rightarrow> error + rrow list" where
  "main_SE300 P c g df =
    (case balance_SE300 P c g df of
       Inl e \<Rightarrow> Inl e
     | Inr (df', g') \<Rightarrow> Inr (fst (hydrogen_SE300 c df')))"

text \<open>
  The columns the frame has before \<open>balance()\<close>, and the columns \<open>balance()\<close> writes.
\<close>

definition exogenous :: "rrow \<Rightarrow> real \<times> real \<times> real \<times> real \<times> real \<times> real" where
  "exogenous r = (Date r, Wind r, Tout r, Nuclear r, HoY r, Inflow r)"

definition written :: "rrow \<Rightarrow> real \<times> real \<times> real \<times> real \<times> real \<times> real" where
  "written r = (Store r, Pout r, Waout r, Import r, Export r, Pnet r)"

text \<open>The constants the two scripts set (\<open>expl = 10 - constexp\<close>).\<close>

definition SPB_config :: config where
  "SPB_config = \<lparr> wlim = 13, wlim_high = 0, wlim_low = 0, constexp = 4, impl = 6,
                   expl = 10 - 4, elyscap = 0, flexmax = 0, dStore_InCap = 0,
                   dStore_OutCap = 0, rtp_eff = 0, H2drain = 0, store0 = 20000 \<rparr>"

definition SE300_config :: config where
  "SE300_config = \<lparr> wlim = 13, wlim_high = 0, wlim_low = 0, constexp = 4, impl = 6,
                     expl = 10 - 4, elyscap = 0, flexmax = 0, dStore_InCap = 0,
                     dStore_OutCap = 0, rtp_eff = 0, H2drain = 0, store0 = 20000 \<rparr>"

subsection \<open>The hydrogen scripts: SvK_EF_nuclear.py and SvK_EF_wind.py\<close>

record hrow =
  Wind :: real
  Heat :: real
  Consumption :: real
  eStore :: real
  dStore :: real
  dPower :: real
  Pout :: real
  Water :: real
  Import :: real
  Export :: real
  Residual :: real
  Pnet :: real

text \<open>
  One pass through the loop body of \<open>balance()\<close> in SvK_EF_nuclear.py, lines 87 to
  107. The result is \<open>(water, imp, exp, eload, flex)\<close>.
\<close>

definition hour_nuclear ::
  "config \<Rightarrow> real \<Rightarrow> real \<Rightarrow> real \<Rightarrow> real \<times> real \<times> real \<times> real \<times> real" where
  "hour_nuclear c wind load con =
    (let water = (if (wind + con) - load \<ge> 0 then 2
                  else if (wind + con) - load \<le> - wlim c then wlim c
                  else max (load - (wind + con)) 2)
     in if (wind + con + water) - load \<le> 0
        then let flex = min (load - (wind + con + water)) (flexmax c);
                 imp = min (load - (wind + con + water) - flex) (impl c)
             in (water, imp, 0, 0, flex)
        else let eload = min ((wind + con + water) - load) (elyscap c);
                 exp' = min ((wind + con + water) - load - eload) (expl c)
             in (water, 0, exp', eload, 0))"

definition step_nuclear ::
  "config \<Rightarrow> nat \<Rightarrow> hrow list \<times> real \<times> real \<Rightarrow> hrow list \<times> real \<times> real" where
  "step_nuclear c i s =
    (case s of (df, H2high, H2low) \<Rightarrow>
      let wind = Wind (df ! i);
          load = Consumption (df ! i);
          con = Heat (df ! i)
      in (case hour_nuclear c wind load con of (water, imp, exp', eload, flex) \<Rightarrow>
           (df[i := (df ! i)\<lparr> Water := water,
                               Import := imp,
                               Export := exp',
                               Pout := wind + water + con + imp - exp',
                               Pnet := wind + water + con + imp,
                               Consumption := Consumption (df ! i) + (eload - flex),
                               eStore := eStore (df ! (i - 1)) + eload + (flexmax c - flex) - 9.7 \<rparr>],
            H2high + eload,
            H2low + (flexmax c - flex))))"

definition init_nuclear :: "config \<Rightarrow> hrow list \<Rightarrow> hrow list" where
  "init_nuclear c df =
     df[0 := (df ! 0)\<lparr> eStore := 0,
                        Pout := Consumption (df ! 0),
                        Water := 0,
                        Import := 0,
                        Export := 0,
                        Residual := 0,
                        Pnet := Consumption (df ! 0) - constexp c \<rparr>]"

text \<open>
  \<open>balance()\<close> of SvK_EF_nuclear.py; \<open>H2high\<close> and \<open>H2low\<close> are the module's
  globals, which the call finds and leaves.
\<close>

definition balance_nuclear ::
  "config \<Rightarrow> real \<Rightarrow> real \<Rightarrow> hrow list \<Rightarrow> error + (hrow list \<times> real \<times> real)" where
  "balance_nuclear c H2high H2low df =
    (if df = [] then Inl EmptyFrame
     else Inr (fold (step_nuclear c) [1..<length df] (init_nuclear c df, H2high, H2low)))"

text \<open>
  One pass through the loop body of \<open>balance()\<close> in SvK_EF_wind.py, lines 114 to
  146. The result is \<open>(water, imp, exp, eload, flex, def_store)\<close>, with \<open>def_store\<close>
  as it stands at line 146, before the division of line 156.
\<close>

definition hour_wind ::
  "config \<Rightarrow> real \<Rightarrow> real \<Rightarrow> real \<times> real \<times> real \<times> real \<times> real \<times> real" where
  "hour_wind c must_run load =
    (let water = (if must_run - load \<ge> 0 then wlim_low c
                  else if must_run - load \<le> - wlim_high c then wlim_high c
                  else max (load - must_run) (wlim_low c));
         power_diff = must_run + water - load
     in if power_diff \<ge> 0
        then let def_store = min power_diff (dStore_InCap c);
                 power_diff1 = power_diff - def_store;
                 eload = min power_diff1 (elyscap c);
                 power_diff2 = power_diff1 - eload;
                 exp' = min power_diff2 (expl c)
             in (water, 0, exp', eload, 0, def_store)
        else let flex = min (- power_diff) (flexmax c);
                 power_diff1 = power_diff + flex;
                 imp = min (- power_diff1) (impl c);
                 power_diff2 = power_diff1 + imp;
                 def_store = - min (- power_diff2) (dStore_OutCap c)
             in (water, imp, 0, 0, flex, def_store))"

text \<open>Lines 155 and 156: the division, which fails on a zero efficiency.\<close>

definition store_flow :: "config \<Rightarrow> real \<Rightarrow> error + real" where
  "store_flow c def_store =
    (if def_store < 0
     then (if rtp_eff c = 0 then Inl ZeroDivisionError else Inr (def_store / rtp_eff c))
     else Inr def_store)"

definition step_wind ::
  "config \<Rightarrow> nat \<Rightarrow> hrow list \<times> real \<times> real \<Rightarrow> error + (hrow list \<times> real \<times> real)" where
  "step_wind c i s =
    (case s of (df, H2high, H2low) \<Rightarrow>
      let must_run = Wind (df ! i) + Heat (df ! i);
          load = Consumption (df ! i)
      in (case hour_wind c must_run load of (water, imp, exp', eload, flex, def_store) \<Rightarrow>
           (case store_flow c def_store of
              Inl e \<Rightarrow> Inl e
            | Inr def_store' \<Rightarrow>
                Inr (df[i := (df ! i)\<lparr> Water := water,
                                        Import := imp,
                                        Export := exp',
                                        Pout := must_run + water + imp - exp' - def_store,
                                        Pnet := must_run + water + imp,
                                        Consumption := Consumption (df ! i) + (eload - flex),
                                        eStore := eStore (df ! (i - 1)) + eload
                                                    + (flexmax c - flex) - H2drain c,
                                        dStore := dStore (df ! (i - 1)) + def_store',
                                        dPower := def_store' \<rparr>],
                     H2high + eload,
                     H2low + (flexmax c - flex)))))"

definition init_wind :: "hrow list \<Rightarrow> hrow list" where
  "init_wind df =
     df[0 := (df ! 0)\<lparr> eStore := 0,
                        dStore := 0,
                        dPower := 0,
                        Pout := Consumption (df ! 0),
                        Import := 0,
                        Export := 0,
                        Residual := 0,
                        Pnet := Consumption (df ! 0) \<rparr>]"

text \<open>The loop of SvK_EF_wind.py stops at the first failing hour.\<close>

fun loop_wind ::
  "config \<Rightarrow> nat list \<Rightarrow> hrow list \<times> real \<times> real \<Rightarrow> error + (hrow list \<times> real \<times> real)" where
  "loop_wind c [] s = Inr s"
| "loop_wind c (i # is) s =
     (case step_wind c i s of Inl e \<Rightarrow> Inl e | Inr s' \<Rightarrow> loop_wind c is s')"

definition balance_wind ::
  "config \<Rightarrow> real \<Rightarrow> real \<Rightarrow> hrow list \<Rightarrow> error + (hrow list \<times> real \<times> real)" where
  "balance_wind c H2high H2low df =
    (if df = [] then Inl EmptyFrame
     else loop_wind c [1..<length df] (init_wind df, H2high, H2low))"

text \<open>The constants the two scripts set.\<close>

definition nuclear_config :: config where
  "nuclear_config = \<lparr> wlim = 13, wlim_high = 0, wlim_low = 0, constexp = 0, impl = 2.6,
                       expl = 6, elyscap = 0, flexmax = 9.72, dStore_InCap = 0,
                       dStore_OutCap = 0, rtp_eff = 0, H2drain = 0, store0 = 0 \<rparr>"

definition wind_config :: config where
  "wind_config = \<lparr> wlim = 0, wlim_high = 13, wlim_low = 2, constexp = 0, impl = 2.6,
                    expl = 6, elyscap = 9.35, flexmax = 9.35, dStore_InCap = 0.73,
                    dStore_OutCap = 6, rtp_eff = 0.4, H2drain = 85 / 8.76, store0 = 0 \<rparr>"

text \<open>The frame of a result, empty when there is none.\<close>

definition rows_of :: "error + 'a list \<Rightarrow> 'a list" where
  "rows_of r = (case r of Inl e \<Rightarrow> [] | Inr out \<Rightarrow> out)"

text \<open>
  Three hours for the reservoir scripts, as \<open>balance()\<close> finds the frame, from 1 May
  2020 00:00 (hour of year 0): demand and baseload near their sinus curves there, the
  inflow of the formula to four decimals, and the wind of a windy hour, with export at
  its limit, followed by a calm hour, with hydro and import at their limits.
\<close>

definition example_frame :: "rrow list" where
  "example_frame =
     [\<lparr>Date = 1588291200, Wind = 25, Tout = 33.9, Nuclear = 6.5, HoY = 0, Inflow = 2.8,
       Store = 0, Pout = 0, Waout = 0, Import = 0, Export = 0, Pnet = 0, Residual = 0,
       Hydrogen = 0, eStore = 0\<rparr>,
      \<lparr>Date = 1588294800, Wind = 36, Tout = 33.9, Nuclear = 6.5, HoY = 1, Inflow = 2.8001,
       Store = 0, Pout = 0, Waout = 0, Import = 0, Export = 0, Pnet = 0, Residual = 0,
       Hydrogen = 0, eStore = 0\<rparr>,
      \<lparr>Date = 1588298400, Wind = 6, Tout = 33.9, Nuclear = 6.5, HoY = 2, Inflow = 2.8005,
       Store = 0, Pout = 0, Waout = 0, Import = 0, Export = 0, Pnet = 0, Residual = 0,
       Hydrogen = 0, eStore = 0\<rparr>]"

text \<open>
  The three-hour scenario of the specification: wind 5, baseload 5, demand 8, 12, 6,
  hydro maximum 6, starting reservoir 100, no import and no export. (The hydro minimum 2
  is a literal of the script; the scenario gives no inflow.)
\<close>

definition scenario3_config :: config where
  "scenario3_config = \<lparr> wlim = 6, wlim_high = 0, wlim_low = 0, constexp = 0, impl = 0,
                         expl = 0, elyscap = 0, flexmax = 0, dStore_InCap = 0,
                         dStore_OutCap = 0, rtp_eff = 0, H2drain = 0, store0 = 100 \<rparr>"

definition scenario3_frame :: "rrow list" where
  "scenario3_frame =
     [\<lparr>Date = 0, Wind = 5, Tout = 8, Nuclear = 5, HoY = 0, Inflow = 0,
       Store = 0, Pout = 0, Waout = 0, Import = 0, Export = 0, Pnet = 0, Residual = 0,
       Hydrogen = 0, eStore = 0\<rparr>,
      \<lparr>Date = 0, Wind = 5, Tout = 12, Nuclear = 5, HoY = 0, Inflow = 0,
       Store = 0, Pout = 0, Waout = 0, Import = 0, Export = 0, Pnet = 0, Residual = 0,
       Hydrogen = 0, eStore = 0\<rparr>,
      \<lparr>Date = 0, Wind = 5, Tout = 6, Nuclear = 5, HoY = 0, Inflow = 0,
       Store = 0, Pout = 0, Waout = 0, Import = 0, Export = 0, Pnet = 0, Residual = 0,
       Hydrogen = 0, eStore = 0\<rparr>]"

text \<open>
  Three hours for the hydrogen scripts, with the demand and baseload levels of
  SvK_EF_nuclear.py: a calm hour whose deficit hydro does not cover, then a windy hour
  with a surplus. And three hours with the levels of SvK_EF_wind.py, where the calm hour
  draws on the deficit store and the windy hour fills it.
\<close>

definition example_hframe :: "hrow list" where
  "example_hframe =
     [\<lparr>Wind = 8, Heat = 20, Consumption = 33, eStore = 0, dStore = 0, dPower = 0, Pout = 0,
       Water = 0, Import = 0, Export = 0, Residual = 0, Pnet = 0\<rparr>,
      \<lparr>Wind = 0.5, Heat = 19, Consumption = 35, eStore = 0, dStore = 0, dPower = 0, Pout = 0,
       Water = 0, Import = 0, Export = 0, Residual = 0, Pnet = 0\<rparr>,
      \<lparr>Wind = 12, Heat = 21, Consumption = 30, eStore = 0, dStore = 0, dPower = 0, Pout = 0,
       Water = 0, Import = 0, Export = 0, Residual = 0, Pnet = 0\<rparr>]"

definition example_wind_frame :: "hrow list" where
  "example_wind_frame =
     [\<lparr>Wind = 20, Heat = 2, Consumption = 33, eStore = 0, dStore = 0, dPower = 0, Pout = 0,
       Water = 0, Import = 0, Export = 0, Residual = 0, Pnet = 0\<rparr>,
      \<lparr>Wind = 2, Heat = 2, Consumption = 35, eStore = 0, dStore = 0, dPower = 0, Pout = 0,
       Water = 0, Import = 0, Export = 0, Residual = 0, Pnet = 0\<rparr>,
      \<lparr>Wind = 50, Heat = 2, Consumption = 33, eStore = 0, dStore = 0, dPower = 0, Pout = 0,
       Water = 0, Import = 0, Export = 0, Residual = 0, Pnet = 0\<rparr>]"

section \<open>Properties\<close>

subsection \<open>A loop over the rows writes one row per step\<close>

lemma fold_upt_Suc: "a \<le> k \<Longrightarrow> fold f [a..<Suc k] s = f k (fold f [a..<k] s)"
  by simp

lemma fold_frame:
  assumes "\<And>i s. i \<noteq> j \<Longrightarrow> fst (f i s) ! j = fst s ! j"
  shows "j \<notin> set js \<Longrightarrow> fst (fold f js s) ! j = fst s ! j"
  using assms by (induction js arbitrary: s) auto

lemma fold_length:
  assumes "\<And>i s. length (fst (f i s)) = length (fst s)"
  shows "length (fst (fold f js s)) = length (fst s)"
  using assms by (induction js arbitrary: s) auto

lemma fold_upt_row:
  assumes fr: "\<And>i j s. i \<noteq> j \<Longrightarrow> fst (f i s) ! j = fst s ! j"
    and i: "1 \<le> i" "i < n"
  shows "fst (fold f [1..<n] s) ! i = fst (f i (fold f [1..<i] s)) ! i"
proof -
  have "[1..<n] = [1..<Suc i] @ [Suc i..<n]"
    using i by (metis Suc_leI less_eq_Suc_le upt_add_eq_append le_add_diff_inverse le_SucI)
  then have "fold f [1..<n] s = fold f [Suc i..<n] (f i (fold f [1..<i] s))"
    using i by simp
  moreover have "i \<notin> set [Suc i..<n]" by simp
  ultimately show ?thesis
    using fold_frame [of i f "[Suc i..<n]"] fr by metis
qed

lemma fold_upt_prev:
  assumes fr: "\<And>i j s. i \<noteq> j \<Longrightarrow> fst (f i s) ! j = fst s ! j"
    and i: "1 \<le> i" "i \<le> n"
  shows "fst (fold f [1..<n] s) ! (i - 1) = fst (fold f [1..<i] s) ! (i - 1)"
proof -
  have "[1..<n] = [1..<i] @ [i..<n]"
    using i by (metis le_add_diff_inverse upt_add_eq_append)
  then have "fold f [1..<n] s = fold f [i..<n] (fold f [1..<i] s)"
    by simp
  moreover have "i - 1 \<notin> set [i..<n]" using i by simp
  ultimately show ?thesis
    using fold_frame [of "i - 1" f "[i..<n]"] fr by metis
qed

lemma fold_upt_later:
  assumes fr: "\<And>i j s. i \<noteq> j \<Longrightarrow> fst (f i s) ! j = fst s ! j"
    and "k \<le> j"
  shows "fst (fold f [1..<k] s) ! j = fst s ! j"
  using fold_frame [of j f "[1..<k]"] fr assms(2) by simp

lemma fold_upt_zero:
  assumes fr: "\<And>i j s. i \<noteq> j \<Longrightarrow> fst (f i s) ! j = fst s ! j"
  shows "fst (fold f [1..<k] s) ! 0 = fst s ! 0"
  using fold_frame [of 0 f "[1..<k]"] fr by simp

subsection \<open>The loop body of the reservoir scripts\<close>

lemma water_balance_SPB_le_store:
  "2 \<le> ostore \<Longrightarrow> water_balance_SPB c wind load con ostore \<le> ostore"
  by (simp add: water_balance_SPB_def Let_def)

lemma water_balance_SPB_nonneg:
  "0 \<le> ostore \<Longrightarrow> 0 \<le> wlim c \<Longrightarrow> 0 \<le> water_balance_SPB c wind load con ostore"
  by (simp add: water_balance_SPB_def Let_def max_def)

lemma water_balance_SPB_le_wlim:
  "2 \<le> wlim c \<Longrightarrow> water_balance_SPB c wind load con ostore \<le> wlim c"
  by (simp add: water_balance_SPB_def Let_def min_def)

lemma impexp_balance_SPB_import:
  "impexp_balance_SPB c wind load con water = (imp, exp') \<Longrightarrow> 0 \<le> impl c
     \<Longrightarrow> 0 \<le> imp \<and> imp \<le> impl c"
  by (auto simp: impexp_balance_SPB_def split: if_splits)

lemma impexp_balance_SPB_export:
  "impexp_balance_SPB c wind load con water = (imp, exp') \<Longrightarrow> 0 \<le> expl c
     \<Longrightarrow> 0 \<le> exp' \<and> exp' \<le> expl c"
  by (auto simp: impexp_balance_SPB_def split: if_splits)

lemma exchange_SPB_parts:
  assumes "exchange_SPB c water0 imp0 ema_old u = (water, imp, ema)"
  obtains r where "0 \<le> r" "water = water0 - min r (min water0 (impl c - imp0))"
    "imp = imp0 + min r (min water0 (impl c - imp0))"
proof -
  define r where "r = max ((0.03 * (u * 1.1 * 2) + (1 - 0.03) * ema_old - 1.1) * 9 + 1.1) (0::real)"
  have "0 \<le> r" unfolding r_def by (rule max.cobounded2)
  moreover have "exchange_SPB c water0 imp0 ema_old u =
      (water0 - min r (min water0 (impl c - imp0)), imp0 + min r (min water0 (impl c - imp0)),
       0.03 * (u * 1.1 * 2) + (1 - 0.03) * ema_old)"
    unfolding exchange_SPB_def Let_def r_def ..
  ultimately show thesis using that [of r] assms by simp
qed

lemma hour_SPB_bounds:
  assumes h: "hour_SPB c wind load con ostore ema_old u = (water, imp, exp', ema)"
  shows "0 \<le> water" "imp \<le> impl c"
    and "2 \<le> ostore \<Longrightarrow> 0 \<le> impl c \<Longrightarrow> water \<le> ostore"
    and "0 \<le> ostore \<Longrightarrow> 0 \<le> impl c \<Longrightarrow> 0 \<le> wlim c \<Longrightarrow> 0 \<le> imp"
    and "0 \<le> ostore \<Longrightarrow> 0 \<le> impl c \<Longrightarrow> 2 \<le> wlim c \<Longrightarrow> water \<le> wlim c"
    and "0 \<le> expl c \<Longrightarrow> 0 \<le> exp' \<and> exp' \<le> expl c"
proof -
  define water0 where "water0 = water_balance_SPB c wind load con ostore"
  obtain imp0 exp0 where ie: "impexp_balance_SPB c wind load con water0 = (imp0, exp0)"
    by (cases "impexp_balance_SPB c wind load con water0")
  have x: "exchange_SPB c water0 imp0 ema_old u = (water, imp, ema)" and e: "exp' = exp0"
    using h ie by (auto simp: hour_SPB_def Let_def water0_def split: prod.splits)
  obtain r where r: "0 \<le> r" and w: "water = water0 - min r (min water0 (impl c - imp0))"
    and i: "imp = imp0 + min r (min water0 (impl c - imp0))"
    using exchange_SPB_parts [OF x] by blast
  show "0 \<le> water" unfolding w by simp
  show "imp \<le> impl c" unfolding i by (simp add: min_def)
  show "0 \<le> exp' \<and> exp' \<le> expl c" if "0 \<le> expl c"
    using impexp_balance_SPB_export [OF ie that] e by simp
  show "water \<le> ostore" if "2 \<le> ostore" "0 \<le> impl c"
    using water_balance_SPB_le_store [OF that(1), of c wind load con]
      impexp_balance_SPB_import [OF ie that(2)] r that
    unfolding w water0_def [symmetric] by (simp add: min_def)
  show "0 \<le> imp" if "0 \<le> ostore" "0 \<le> impl c" "0 \<le> wlim c"
    using water_balance_SPB_nonneg [OF that(1,3), of wind load con]
      impexp_balance_SPB_import [OF ie that(2)] r
    unfolding i water0_def [symmetric] by (simp add: min_def)
  show "water \<le> wlim c" if "0 \<le> ostore" "0 \<le> impl c" "2 \<le> wlim c"
    using water_balance_SPB_le_wlim [OF that(3), of wind load con ostore]
      water_balance_SPB_nonneg [OF that(1), of c wind load con]
      impexp_balance_SPB_import [OF ie that(2)] r that
    unfolding w water0_def [symmetric] by (simp add: min_def)
qed

lemma water_balance_SE300_le_store:
  "2 \<le> ostore \<Longrightarrow> water_balance_SE300 c wind load con ostore \<le> ostore"
  by (simp add: water_balance_SE300_def)

lemma water_balance_SE300_ge2:
  "2 \<le> ostore \<Longrightarrow> 2 \<le> wlim c \<Longrightarrow> 2 \<le> water_balance_SE300 c wind load con ostore"
  by (simp add: water_balance_SE300_def max_def)

lemma water_balance_SE300_le_wlim:
  "2 \<le> wlim c \<Longrightarrow> water_balance_SE300 c wind load con ostore \<le> wlim c"
  by (simp add: water_balance_SE300_def min_def)

lemma impexp_balance_SE300_import:
  "impexp_balance_SE300 c wind load con water = (imp, exp') \<Longrightarrow> 0 \<le> impl c
     \<Longrightarrow> 0 \<le> imp \<and> imp \<le> impl c"
  by (auto simp: impexp_balance_SE300_def split: if_splits)

lemma impexp_balance_SE300_export:
  "impexp_balance_SE300 c wind load con water = (imp, exp') \<Longrightarrow> 0 \<le> expl c
     \<Longrightarrow> 0 \<le> exp' \<and> exp' \<le> expl c"
  by (auto simp: impexp_balance_SE300_def split: if_splits)

lemma exchange_SE300_parts:
  assumes "exchange_SE300 c water0 imp0 ema_old u = (water, imp, ema)"
  obtains r where "0 \<le> r" "water = water0 - min r (min (water0 - 2) (impl c - imp0))"
    "imp = imp0 + min r (min (water0 - 2) (impl c - imp0))"
proof -
  define r where "r = max ((0.03 * (u * 1.1 * 2) + (1 - 0.03) * ema_old - 1.1) * 9 + 1.1) (0::real)"
  have "0 \<le> r" unfolding r_def by (rule max.cobounded2)
  moreover have "exchange_SE300 c water0 imp0 ema_old u =
      (water0 - min r (min (water0 - 2) (impl c - imp0)),
       imp0 + min r (min (water0 - 2) (impl c - imp0)),
       0.03 * (u * 1.1 * 2) + (1 - 0.03) * ema_old)"
    unfolding exchange_SE300_def Let_def r_def ..
  ultimately show thesis using that [of r] assms by simp
qed

lemma hour_SE300_bounds:
  assumes h: "hour_SE300 c wind load con ostore ema_old u = (water, imp, exp', ema)"
  shows "2 \<le> water" "imp \<le> impl c"
    and "2 \<le> ostore \<Longrightarrow> 0 \<le> impl c \<Longrightarrow> water \<le> ostore"
    and "2 \<le> ostore \<Longrightarrow> 0 \<le> impl c \<Longrightarrow> 2 \<le> wlim c \<Longrightarrow> 0 \<le> imp"
    and "2 \<le> ostore \<Longrightarrow> 0 \<le> impl c \<Longrightarrow> 2 \<le> wlim c \<Longrightarrow> water \<le> wlim c"
    and "0 \<le> expl c \<Longrightarrow> 0 \<le> exp' \<and> exp' \<le> expl c"
proof -
  define water0 where "water0 = water_balance_SE300 c wind load con ostore"
  obtain imp0 exp0 where ie: "impexp_balance_SE300 c wind load con water0 = (imp0, exp0)"
    by (cases "impexp_balance_SE300 c wind load con water0")
  have x: "exchange_SE300 c water0 imp0 ema_old u = (water, imp, ema)" and e: "exp' = exp0"
    using h ie by (auto simp: hour_SE300_def Let_def water0_def split: prod.splits)
  obtain r where r: "0 \<le> r" and w: "water = water0 - min r (min (water0 - 2) (impl c - imp0))"
    and i: "imp = imp0 + min r (min (water0 - 2) (impl c - imp0))"
    using exchange_SE300_parts [OF x] by blast
  show "2 \<le> water" unfolding w by (simp add: min_def)
  show "imp \<le> impl c" unfolding i by (simp add: min_def)
  show "0 \<le> exp' \<and> exp' \<le> expl c" if "0 \<le> expl c"
    using impexp_balance_SE300_export [OF ie that] e by simp
  show "water \<le> ostore" if "2 \<le> ostore" "0 \<le> impl c"
    using water_balance_SE300_le_store [OF that(1), of c wind load con]
      impexp_balance_SE300_import [OF ie that(2)] r that
    unfolding w water0_def [symmetric] by (simp add: min_def)
  show "0 \<le> imp" if "2 \<le> ostore" "0 \<le> impl c" "2 \<le> wlim c"
    using water_balance_SE300_ge2 [OF that(1,3), of wind load con]
      impexp_balance_SE300_import [OF ie that(2)] r
    unfolding i water0_def [symmetric] by (simp add: min_def)
  show "water \<le> wlim c" if "2 \<le> ostore" "0 \<le> impl c" "2 \<le> wlim c"
    using water_balance_SE300_le_wlim [OF that(3), of wind load con ostore]
      water_balance_SE300_ge2 [OF that(1,3), of wind load con]
      impexp_balance_SE300_import [OF ie that(2)] r that
    unfolding w water0_def [symmetric] by (simp add: min_def)
qed

subsection \<open>The loop of the reservoir scripts\<close>

lemma step_reservoir_frame:
  "i \<noteq> j \<Longrightarrow> fst (step_reservoir hour P c i s) ! j = fst s ! j"
  by (simp add: step_reservoir_def Let_def split: prod.splits)

lemma step_reservoir_length:
  "length (fst (step_reservoir hour P c i s)) = length (fst s)"
  by (simp add: step_reservoir_def Let_def split: prod.splits)

lemma step_reservoir_row:
  assumes "i < length (fst s)"
  shows "\<exists>ema u. fst (step_reservoir hour P c i s) ! i =
           new_row (Store (fst s ! (i - 1))) (fst s ! i)
             (hour c (rrow.Wind (fst s ! i)) (Tout (fst s ! i)) (Nuclear (fst s ! i))
                (Store (fst s ! (i - 1))) ema u)"
proof -
  obtain df ema_old g where s: "s = (df, ema_old, g)" by (cases s)
  obtain u g' where r: "prng_random P g = (u, g')" by (cases "prng_random P g")
  have "fst (step_reservoir hour P c i s) ! i =
           new_row (Store (fst s ! (i - 1))) (fst s ! i)
             (hour c (rrow.Wind (fst s ! i)) (Tout (fst s ! i)) (Nuclear (fst s ! i))
                (Store (fst s ! (i - 1))) ema_old u)"
    using assms by (simp add: step_reservoir_def Let_def s r)
  then show ?thesis by blast
qed

lemma balance_reservoir_Inr:
  "df \<noteq> [] \<Longrightarrow> \<exists>g'. balance_reservoir hour P c g df = Inr (rows_reservoir hour P c df, g')"
  by (auto simp: balance_reservoir_def rows_reservoir_def Let_def split: prod.splits)

lemma rows_reservoir_length: "length (rows_reservoir hour P c df) = length df"
  unfolding rows_reservoir_def
  by (subst fold_length) (simp_all add: step_reservoir_length init_row_def)

lemma rows_reservoir_row0:
  "df \<noteq> [] \<Longrightarrow> rows_reservoir hour P c df ! 0 = init_row c df ! 0"
  unfolding rows_reservoir_def
  by (subst fold_upt_zero) (simp_all add: step_reservoir_frame)

lemma rows_reservoir_row:
  assumes "1 \<le> i" "i < length df"
  shows "\<exists>ema u. rows_reservoir hour P c df ! i =
           new_row (Store (rows_reservoir hour P c df ! (i - 1))) (df ! i)
             (hour c (rrow.Wind (df ! i)) (Tout (df ! i)) (Nuclear (df ! i))
                (Store (rows_reservoir hour P c df ! (i - 1))) ema u)"
proof -
  let ?f = "step_reservoir hour P c"
  let ?s0 = "(init_row c df, 1.1::real, prng_seed P 5)"
  let ?pre = "fold ?f [1..<i] ?s0"
  have fr: "\<And>i j s. i \<noteq> j \<Longrightarrow> fst (?f i s) ! j = fst s ! j"
    by (rule step_reservoir_frame)
  have a: "rows_reservoir hour P c df ! i = fst (?f i ?pre) ! i"
    unfolding rows_reservoir_def using fold_upt_row [of ?f i "length df" ?s0] fr assms by blast
  have b: "rows_reservoir hour P c df ! (i - 1) = fst ?pre ! (i - 1)"
    unfolding rows_reservoir_def using fold_upt_prev [of ?f i "length df" ?s0] fr assms by simp
  have "fst ?pre ! i = fst ?s0 ! i"
    using fold_upt_later [of ?f i i ?s0] fr by simp
  then have c: "fst ?pre ! i = df ! i"
    using assms by (simp add: init_row_def)
  have len: "i < length (fst ?pre)"
    using assms fold_length [of ?f "[1..<i]" ?s0]
    by (simp add: step_reservoir_length init_row_def)
  obtain ema u where "fst (?f i ?pre) ! i =
           new_row (Store (fst ?pre ! (i - 1))) (fst ?pre ! i)
             (hour c (rrow.Wind (fst ?pre ! i)) (Tout (fst ?pre ! i)) (Nuclear (fst ?pre ! i))
                (Store (fst ?pre ! (i - 1))) ema u)"
    using step_reservoir_row [OF len, of hour P c] by blast
  then have "rows_reservoir hour P c df ! i =
           new_row (Store (rows_reservoir hour P c df ! (i - 1))) (df ! i)
             (hour c (rrow.Wind (df ! i)) (Tout (df ! i)) (Nuclear (df ! i))
                (Store (rows_reservoir hour P c df ! (i - 1))) ema u)"
    unfolding a b c .
  then show ?thesis by blast
qed

lemma new_row_fields:
  "Store (new_row ostore r (water, imp, exp', ema)) = ostore - water + Inflow r"
  "Waout (new_row ostore r (water, imp, exp', ema)) = water"
  "rrow.Import (new_row ostore r (water, imp, exp', ema)) = imp"
  "rrow.Export (new_row ostore r (water, imp, exp', ema)) = exp'"
  "Inflow (new_row ostore r (water, imp, exp', ema)) = Inflow r"
  "rrow.Wind (new_row ostore r (water, imp, exp', ema)) = rrow.Wind r"
  "Tout (new_row ostore r (water, imp, exp', ema)) = Tout r"
  "Nuclear (new_row ostore r (water, imp, exp', ema)) = Nuclear r"
  "rrow.Pout (new_row ostore r (water, imp, exp', ema)) = rrow.Wind r + water + Nuclear r + imp - exp'"
  by (simp_all add: new_row_def Let_def)

lemma rows_reservoir_store_ge2:
  assumes wb: "\<And>wind load con ostore ema u water imp exp' ema'.
                 \<lbrakk>hour c wind load con ostore ema u = (water, imp, exp', ema'); 2 \<le> ostore\<rbrakk>
                 \<Longrightarrow> water \<le> ostore"
    and s0: "2 \<le> store0 c"
    and inf: "\<forall>r\<in>set df. 2 \<le> Inflow r"
  shows "i < length df \<Longrightarrow> 2 \<le> Store (rows_reservoir hour P c df ! i)"
proof (induction i)
  case 0
  then have "df \<noteq> []" by auto
  then show ?case using s0 0 by (simp add: rows_reservoir_row0 init_row_def)
next
  case (Suc i)
  let ?out = "rows_reservoir hour P c df"
  have prev: "2 \<le> Store (?out ! i)" using Suc by simp
  obtain ema u where row: "?out ! Suc i =
      new_row (Store (?out ! i)) (df ! Suc i)
        (hour c (rrow.Wind (df ! Suc i)) (Tout (df ! Suc i)) (Nuclear (df ! Suc i))
           (Store (?out ! i)) ema u)"
    using rows_reservoir_row [of "Suc i" df hour P c] Suc.prems by auto
  obtain water imp exp' ema' where h:
    "hour c (rrow.Wind (df ! Suc i)) (Tout (df ! Suc i)) (Nuclear (df ! Suc i))
           (Store (?out ! i)) ema u = (water, imp, exp', ema')"
    by (metis prod_cases4)
  have "water \<le> Store (?out ! i)" using wb [OF h prev] .
  moreover have "2 \<le> Inflow (df ! Suc i)" using inf Suc.prems by simp
  ultimately show ?case by (simp add: row h new_row_fields)
qed

lemma inflow_formula_ge: "2.8 \<le> inflow_formula x"
proof -
  have "0 \<le> 0.00012 * x\<^sup>2 * exp (- ((x * 0.002) powr 0.9))" by simp
  then show ?thesis unfolding inflow_formula_def by linarith
qed

lemma inflow_col:
  assumes "r \<in> set (inflow df)"
  shows "2.8 \<le> Inflow r"
proof -
  obtain r0 h where "r = r0\<lparr>HoY := h, Inflow := inflow_formula h\<rparr>"
    using assms by (auto simp: inflow_def Let_def)
  then have "Inflow r = inflow_formula h" by simp
  then show ?thesis using inflow_formula_ge [of h] by simp
qed

lemma inflow_length: "length (inflow df) = length df"
  by (simp add: inflow_def)

lemma rows_reservoir_update:
  assumes "1 \<le> i" "i < length df"
  shows "Store (rows_reservoir hour P c df ! i) =
           Store (rows_reservoir hour P c df ! (i - 1))
             - Waout (rows_reservoir hour P c df ! i) + Inflow (df ! i)"
proof -
  let ?out = "rows_reservoir hour P c df"
  obtain ema u where row: "?out ! i =
      new_row (Store (?out ! (i - 1))) (df ! i)
        (hour c (rrow.Wind (df ! i)) (Tout (df ! i)) (Nuclear (df ! i))
           (Store (?out ! (i - 1))) ema u)"
    using rows_reservoir_row [OF assms] by blast
  obtain water imp exp' ema' where h:
    "hour c (rrow.Wind (df ! i)) (Tout (df ! i)) (Nuclear (df ! i))
           (Store (?out ! (i - 1))) ema u = (water, imp, exp', ema')"
    by (metis prod_cases4)
  show ?thesis
    unfolding row h by (simp add: new_row_fields)
qed

lemma rows_reservoir_inflow:
  assumes "1 \<le> i" "i < length df"
  shows "Inflow (rows_reservoir hour P c df ! i) = Inflow (df ! i)"
proof -
  let ?out = "rows_reservoir hour P c df"
  obtain ema u where row: "?out ! i =
      new_row (Store (?out ! (i - 1))) (df ! i)
        (hour c (rrow.Wind (df ! i)) (Tout (df ! i)) (Nuclear (df ! i))
           (Store (?out ! (i - 1))) ema u)"
    using rows_reservoir_row [OF assms] by blast
  obtain water imp exp' ema' where h:
    "hour c (rrow.Wind (df ! i)) (Tout (df ! i)) (Nuclear (df ! i))
           (Store (?out ! (i - 1))) ema u = (water, imp, exp', ema')"
    by (metis prod_cases4)
  show ?thesis
    unfolding row h by (simp add: new_row_fields)
qed


lemma step_reservoir_row_state:
  assumes "i < length (fst s)"
  shows "fst (step_reservoir hour P c i s) ! i =
           new_row (Store (fst s ! (i - 1))) (fst s ! i)
             (hour c (rrow.Wind (fst s ! i)) (Tout (fst s ! i)) (Nuclear (fst s ! i))
                (Store (fst s ! (i - 1))) (fst (snd s)) (fst (prng_random P (snd (snd s)))))"
proof -
  obtain df ema_old g where s: "s = (df, ema_old, g)" by (cases s)
  obtain u g' where r: "prng_random P g = (u, g')" by (cases "prng_random P g")
  show ?thesis
    using assms by (simp add: step_reservoir_def Let_def s r)
qed

lemma rows_reservoir_row_state:
  assumes "1 \<le> i" "i < length df"
  shows "rows_reservoir hour P c df ! i =
           new_row (Store (rows_reservoir hour P c df ! (i - 1))) (df ! i)
             (hour c (rrow.Wind (df ! i)) (Tout (df ! i)) (Nuclear (df ! i))
                (Store (rows_reservoir hour P c df ! (i - 1)))
                (fst (snd (loop_state hour P c df i)))
                (fst (prng_random P (snd (snd (loop_state hour P c df i))))))"
proof -
  let ?f = "step_reservoir hour P c"
  let ?s0 = "(init_row c df, 1.1::real, prng_seed P 5)"
  let ?pre = "fold ?f [1..<i] ?s0"
  have fr: "\<And>i j s. i \<noteq> j \<Longrightarrow> fst (?f i s) ! j = fst s ! j"
    by (rule step_reservoir_frame)
  have a: "rows_reservoir hour P c df ! i = fst (?f i ?pre) ! i"
    unfolding rows_reservoir_def using fold_upt_row [of ?f i "length df" ?s0] fr assms by blast
  have b: "rows_reservoir hour P c df ! (i - 1) = fst ?pre ! (i - 1)"
    unfolding rows_reservoir_def using fold_upt_prev [of ?f i "length df" ?s0] fr assms by simp
  have "fst ?pre ! i = fst ?s0 ! i"
    using fold_upt_later [of ?f i i ?s0] fr by simp
  then have c: "fst ?pre ! i = df ! i"
    using assms by (simp add: init_row_def)
  have len: "i < length (fst ?pre)"
    using assms fold_length [of ?f "[1..<i]" ?s0]
    by (simp add: step_reservoir_length init_row_def)
  have "fst (?f i ?pre) ! i =
           new_row (Store (fst ?pre ! (i - 1))) (fst ?pre ! i)
             (hour c (rrow.Wind (fst ?pre ! i)) (Tout (fst ?pre ! i)) (Nuclear (fst ?pre ! i))
                (Store (fst ?pre ! (i - 1))) (fst (snd ?pre)) (fst (prng_random P (snd (snd ?pre)))))"
    by (rule step_reservoir_row_state [OF len])
  then show ?thesis
    unfolding a b c loop_state_def .
qed

lemma new_row_proj:
  "Waout (new_row ostore r h) = fst h"
  "Inflow (new_row ostore r h) = Inflow r"
  "Store (new_row ostore r h) = ostore - fst h + Inflow r"
  by (cases h rule: prod_cases4, simp add: new_row_fields)+

lemma hour_SPB_water:
  "fst (hour_SPB c wind load con ostore ema_old u) =
     fst (exchange_SPB c (water_balance_SPB c wind load con ostore)
            (fst (impexp_balance_SPB c wind load con (water_balance_SPB c wind load con ostore)))
            ema_old u)"
  by (simp add: hour_SPB_def Let_def split: prod.splits)

lemma hour_SE300_water:
  "fst (hour_SE300 c wind load con ostore ema_old u) =
     fst (exchange_SE300 c (water_balance_SE300 c wind load con ostore)
            (fst (impexp_balance_SE300 c wind load con (water_balance_SE300 c wind load con ostore)))
            ema_old u)"
  by (simp add: hour_SE300_def Let_def split: prod.splits)

lemma balance_reservoir_hour_level:
  assumes "df \<noteq> []" "1 \<le> i" "i < length df"
  shows "\<exists>out g'. balance_reservoir hour P c g df = Inr (out, g') \<and> length out = length df \<and>
           Store (out ! 0) = store0 c \<and>
           Waout (out ! i) =
             fst (hour c (rrow.Wind (df ! i)) (Tout (df ! i)) (Nuclear (df ! i))
                    (Store (out ! (i - 1)))
                    (fst (snd (loop_state hour P c df i)))
                    (fst (prng_random P (snd (snd (loop_state hour P c df i)))))) \<and>
           Inflow (out ! i) = Inflow (df ! i) \<and>
           Store (out ! i) = Store (out ! (i - 1)) - Waout (out ! i) + Inflow (df ! i)"
proof -
  let ?out = "rows_reservoir hour P c df"
  obtain g' where b: "balance_reservoir hour P c g df = Inr (?out, g')"
    using balance_reservoir_Inr [OF assms(1), of hour P c g] by blast
  have l: "length ?out = length df" by (rule rows_reservoir_length)
  have z: "Store (?out ! 0) = store0 c"
    using assms(1) by (simp add: rows_reservoir_row0 init_row_def)
  note row = rows_reservoir_row_state [OF assms(2,3), of hour P c]
  have w: "Waout (?out ! i) =
             fst (hour c (rrow.Wind (df ! i)) (Tout (df ! i)) (Nuclear (df ! i))
                    (Store (?out ! (i - 1)))
                    (fst (snd (loop_state hour P c df i)))
                    (fst (prng_random P (snd (snd (loop_state hour P c df i))))))"
    by (subst row) (rule new_row_proj(1))
  have n: "Inflow (?out ! i) = Inflow (df ! i)"
    by (subst row) (rule new_row_proj(2))
  have s: "Store (?out ! i) = Store (?out ! (i - 1)) - Waout (?out ! i) + Inflow (df ! i)"
    unfolding w by (subst row) (rule new_row_proj(3))
  show ?thesis
    by (rule exI [of _ ?out], rule exI [of _ g'], intro conjI b l z w n s)
qed

text \<open>
  C2. In both reservoir scripts, every hour \<open>i \<ge> 1\<close> writes
  \<open>Store i = Store (i - 1) - water + Inflow i\<close>, where \<open>water\<close> is the hydro power
  the hour dispatches, as the exchange of water for import leaves it (computed from the
  hour's wind, demand and baseload, the previous reservoir level, the running average and
  the hour's random draw), and \<open>Inflow i\<close> is the inflow of the input frame at hour
  \<open>i\<close>. The same \<open>water\<close> is written to \<open>Waout i\<close>, the inflow column is left as
  the input has it, and row 0 holds the initial level.
\<close>

theorem reservoir_level_update:
  assumes "df \<noteq> []" and "1 \<le> i" and "i < length df"
  shows "(\<exists>out g'. balance_SPB P c g df = Inr (out, g') \<and> length out = length df \<and>
            Store (out ! 0) = store0 c \<and>
            (let (frame, ema_old, gen) = loop_state hour_SPB P c df i;
                 u = fst (prng_random P gen);
                 wind = rrow.Wind (df ! i);
                 load = Tout (df ! i);
                 con = Nuclear (df ! i);
                 ostore = Store (out ! (i - 1));
                 water = water_balance_SPB c wind load con ostore;
                 imp = fst (impexp_balance_SPB c wind load con water);
                 water = fst (exchange_SPB c water imp ema_old u)
             in Waout (out ! i) = water \<and>
                Inflow (out ! i) = Inflow (df ! i) \<and>
                Store (out ! i) = ostore - water + Inflow (df ! i))) \<and>
         (\<exists>out g'. balance_SE300 P c g df = Inr (out, g') \<and> length out = length df \<and>
            Store (out ! 0) = store0 c \<and>
            (let (frame, ema_old, gen) = loop_state hour_SE300 P c df i;
                 u = fst (prng_random P gen);
                 wind = rrow.Wind (df ! i);
                 load = Tout (df ! i);
                 con = Nuclear (df ! i);
                 ostore = Store (out ! (i - 1));
                 water = water_balance_SE300 c wind load con ostore;
                 imp = fst (impexp_balance_SE300 c wind load con water);
                 water = fst (exchange_SE300 c water imp ema_old u)
             in Waout (out ! i) = water \<and>
                Inflow (out ! i) = Inflow (df ! i) \<and>
                Store (out ! i) = ostore - water + Inflow (df ! i)))"
proof (rule conjI)
  obtain out g' where o: "balance_reservoir hour_SPB P c g df = Inr (out, g')"
      "length out = length df" "Store (out ! 0) = store0 c"
      "Waout (out ! i) =
             fst (hour_SPB c (rrow.Wind (df ! i)) (Tout (df ! i)) (Nuclear (df ! i))
                    (Store (out ! (i - 1)))
                    (fst (snd (loop_state hour_SPB P c df i)))
                    (fst (prng_random P (snd (snd (loop_state hour_SPB P c df i))))))"
      "Inflow (out ! i) = Inflow (df ! i)"
      "Store (out ! i) = Store (out ! (i - 1)) - Waout (out ! i) + Inflow (df ! i)"
    using balance_reservoir_hour_level [OF assms, of hour_SPB P c g] by blast
  show "\<exists>out g'. balance_SPB P c g df = Inr (out, g') \<and> length out = length df \<and>
            Store (out ! 0) = store0 c \<and>
            (let (frame, ema_old, gen) = loop_state hour_SPB P c df i;
                 u = fst (prng_random P gen);
                 wind = rrow.Wind (df ! i);
                 load = Tout (df ! i);
                 con = Nuclear (df ! i);
                 ostore = Store (out ! (i - 1));
                 water = water_balance_SPB c wind load con ostore;
                 imp = fst (impexp_balance_SPB c wind load con water);
                 water = fst (exchange_SPB c water imp ema_old u)
             in Waout (out ! i) = water \<and>
                Inflow (out ! i) = Inflow (df ! i) \<and>
                Store (out ! i) = ostore - water + Inflow (df ! i))"
    unfolding balance_SPB_def
    apply (rule exI [of _ out], rule exI [of _ g'])
    apply (intro conjI o(1) o(2) o(3))
    apply (simp only: Let_def split_beta hour_SPB_water [symmetric] o(5))
    apply (simp only: o(4) [symmetric] o(6) simp_thms)
    done
next
  obtain out g' where o: "balance_reservoir hour_SE300 P c g df = Inr (out, g')"
      "length out = length df" "Store (out ! 0) = store0 c"
      "Waout (out ! i) =
             fst (hour_SE300 c (rrow.Wind (df ! i)) (Tout (df ! i)) (Nuclear (df ! i))
                    (Store (out ! (i - 1)))
                    (fst (snd (loop_state hour_SE300 P c df i)))
                    (fst (prng_random P (snd (snd (loop_state hour_SE300 P c df i))))))"
      "Inflow (out ! i) = Inflow (df ! i)"
      "Store (out ! i) = Store (out ! (i - 1)) - Waout (out ! i) + Inflow (df ! i)"
    using balance_reservoir_hour_level [OF assms, of hour_SE300 P c g] by blast
  show "\<exists>out g'. balance_SE300 P c g df = Inr (out, g') \<and> length out = length df \<and>
            Store (out ! 0) = store0 c \<and>
            (let (frame, ema_old, gen) = loop_state hour_SE300 P c df i;
                 u = fst (prng_random P gen);
                 wind = rrow.Wind (df ! i);
                 load = Tout (df ! i);
                 con = Nuclear (df ! i);
                 ostore = Store (out ! (i - 1));
                 water = water_balance_SE300 c wind load con ostore;
                 imp = fst (impexp_balance_SE300 c wind load con water);
                 water = fst (exchange_SE300 c water imp ema_old u)
             in Waout (out ! i) = water \<and>
                Inflow (out ! i) = Inflow (df ! i) \<and>
                Store (out ! i) = ostore - water + Inflow (df ! i))"
    unfolding balance_SE300_def
    apply (rule exI [of _ out], rule exI [of _ g'])
    apply (intro conjI o(1) o(2) o(3))
    apply (simp only: Let_def split_beta hour_SE300_water [symmetric] o(5))
    apply (simp only: o(4) [symmetric] o(6) simp_thms)
    done
qed

theorem reservoir_level_update_witness:
  "example_frame \<noteq> [] \<and> (1::nat) \<le> 1 \<and> 1 < length example_frame \<and>
   ((\<exists>out g'. balance_SPB (replay [0.6229016948897019, 0.7417869892607294]) SPB_config []
                 example_frame = Inr (out, g') \<and> length out = length example_frame \<and>
            Store (out ! 0) = store0 SPB_config \<and>
            (let (frame, ema_old, gen) =
                   loop_state hour_SPB (replay [0.6229016948897019, 0.7417869892607294])
                     SPB_config example_frame 1;
                 u = fst (prng_random (replay [0.6229016948897019, 0.7417869892607294]) gen);
                 wind = rrow.Wind (example_frame ! 1);
                 load = Tout (example_frame ! 1);
                 con = Nuclear (example_frame ! 1);
                 ostore = Store (out ! (1 - 1));
                 water = water_balance_SPB SPB_config wind load con ostore;
                 imp = fst (impexp_balance_SPB SPB_config wind load con water);
                 water = fst (exchange_SPB SPB_config water imp ema_old u)
             in Waout (out ! 1) = water \<and>
                Inflow (out ! 1) = Inflow (example_frame ! 1) \<and>
                Store (out ! 1) = ostore - water + Inflow (example_frame ! 1))) \<and>
    (\<exists>out g'. balance_SE300 (replay [0.6229016948897019, 0.7417869892607294]) SPB_config []
                 example_frame = Inr (out, g') \<and> length out = length example_frame \<and>
            Store (out ! 0) = store0 SPB_config \<and>
            (let (frame, ema_old, gen) =
                   loop_state hour_SE300 (replay [0.6229016948897019, 0.7417869892607294])
                     SPB_config example_frame 1;
                 u = fst (prng_random (replay [0.6229016948897019, 0.7417869892607294]) gen);
                 wind = rrow.Wind (example_frame ! 1);
                 load = Tout (example_frame ! 1);
                 con = Nuclear (example_frame ! 1);
                 ostore = Store (out ! (1 - 1));
                 water = water_balance_SE300 SPB_config wind load con ostore;
                 imp = fst (impexp_balance_SE300 SPB_config wind load con water);
                 water = fst (exchange_SE300 SPB_config water imp ema_old u)
             in Waout (out ! 1) = water \<and>
                Inflow (out ! 1) = Inflow (example_frame ! 1) \<and>
                Store (out ! 1) = ostore - water + Inflow (example_frame ! 1))))"
proof -
  have ne: "example_frame \<noteq> []" by (simp add: example_frame_def)
  have i1: "(1::nat) \<le> 1" by simp
  have i2: "1 < length example_frame" by (simp add: example_frame_def)
  show ?thesis
    by (intro conjI ne i1 i2 reservoir_level_update [OF ne i1 i2, THEN conjunct1]
          reservoir_level_update [OF ne i1 i2, THEN conjunct2])
qed

lemma rows_reservoir_hour:
  assumes "1 \<le> i" "i < length df"
  obtains ema u water imp exp' ema' where
    "hour c (rrow.Wind (df ! i)) (Tout (df ! i)) (Nuclear (df ! i))
       (Store (rows_reservoir hour P c df ! (i - 1))) ema u = (water, imp, exp', ema')"
    "Waout (rows_reservoir hour P c df ! i) = water"
    "rrow.Import (rows_reservoir hour P c df ! i) = imp"
    "rrow.Export (rows_reservoir hour P c df ! i) = exp'"
proof -
  let ?out = "rows_reservoir hour P c df"
  obtain ema u where row: "?out ! i =
      new_row (Store (?out ! (i - 1))) (df ! i)
        (hour c (rrow.Wind (df ! i)) (Tout (df ! i)) (Nuclear (df ! i))
           (Store (?out ! (i - 1))) ema u)"
    using rows_reservoir_row [OF assms] by blast
  obtain water imp exp' ema' where h:
    "hour c (rrow.Wind (df ! i)) (Tout (df ! i)) (Nuclear (df ! i))
           (Store (?out ! (i - 1))) ema u = (water, imp, exp', ema')"
    by (metis prod_cases4)
  have "Waout (?out ! i) = water" "rrow.Import (?out ! i) = imp" "rrow.Export (?out ! i) = exp'"
    unfolding row h by (simp_all add: new_row_fields)
  with h that show thesis by blast
qed

lemma rows_reservoir_row0_fields:
  assumes "df \<noteq> []"
  shows "Store (rows_reservoir hour P c df ! 0) = store0 c"
    "Waout (rows_reservoir hour P c df ! 0) = 0"
    "rrow.Import (rows_reservoir hour P c df ! 0) = 0"
    "rrow.Export (rows_reservoir hour P c df ! 0) = 0"
  using assms by (simp_all add: rows_reservoir_row0 init_row_def)

lemma SPB_store_ge2:
  assumes "0 \<le> impl c" "2 \<le> store0 c" "\<forall>r\<in>set df. 2 \<le> Inflow r" "i < length df"
  shows "2 \<le> Store (rows_reservoir hour_SPB P c df ! i)"
proof (rule rows_reservoir_store_ge2 [where hour = hour_SPB and c = c])
  show "water \<le> ostore"
    if "hour_SPB c wind load con ostore ema u = (water, imp, exp', ema')" "2 \<le> ostore"
    for wind load con ostore ema u water imp exp' ema'
    using hour_SPB_bounds(3) [OF that(1) that(2) assms(1)] .
qed (use assms in auto)

lemma SE300_store_ge2:
  assumes "0 \<le> impl c" "2 \<le> store0 c" "\<forall>r\<in>set df. 2 \<le> Inflow r" "i < length df"
  shows "2 \<le> Store (rows_reservoir hour_SE300 P c df ! i)"
proof (rule rows_reservoir_store_ge2 [where hour = hour_SE300 and c = c])
  show "water \<le> ostore"
    if "hour_SE300 c wind load con ostore ema u = (water, imp, exp', ema')" "2 \<le> ostore"
    for wind load con ostore ema u water imp exp' ema'
    using hour_SE300_bounds(3) [OF that(1) that(2) assms(1)] .
qed (use assms in auto)

lemma inflow_ge2: "\<forall>r\<in>set (inflow df). 2 \<le> Inflow r"
proof
  fix r assume "r \<in> set (inflow df)"
  then have "2.8 \<le> Inflow r" by (rule inflow_col)
  then show "2 \<le> Inflow r" by simp
qed

lemma inflow_nonempty: "df \<noteq> [] \<Longrightarrow> inflow df \<noteq> []"
  by (simp add: inflow_def)

text \<open>
  C8. With the initial store of 20000 and the inflow column that \<open>inflow()\<close> computes
  (at least 2.8 every hour), the reservoir level of both reservoir scripts is never
  negative, for any non-negative import capacity.
\<close>

theorem reservoir_never_negative:
  assumes "df \<noteq> []" and "store0 c = 20000" and "0 \<le> impl c"
  shows "(\<exists>out g'. balance_SPB P c g (inflow df) = Inr (out, g') \<and> length out = length df \<and>
            (\<forall>i. i < length df \<longrightarrow> 0 \<le> Store (out ! i))) \<and>
         (\<exists>out g'. balance_SE300 P c g (inflow df) = Inr (out, g') \<and> length out = length df \<and>
            (\<forall>i. i < length df \<longrightarrow> 0 \<le> Store (out ! i)))"
proof (rule conjI)
  have ne: "inflow df \<noteq> []" using assms(1) by (rule inflow_nonempty)
  have s0: "2 \<le> store0 c" using assms(2) by simp
  let ?a = "rows_reservoir hour_SPB P c (inflow df)"
  let ?b = "rows_reservoir hour_SE300 P c (inflow df)"
  obtain ga where a: "balance_SPB P c g (inflow df) = Inr (?a, ga)"
    unfolding balance_SPB_def using balance_reservoir_Inr [OF ne, of hour_SPB P c g] by blast
  obtain gb where b: "balance_SE300 P c g (inflow df) = Inr (?b, gb)"
    unfolding balance_SE300_def using balance_reservoir_Inr [OF ne, of hour_SE300 P c g] by blast
  have la: "length ?a = length df" and lb: "length ?b = length df"
    by (simp_all add: rows_reservoir_length inflow_length)
  have "\<forall>i. i < length df \<longrightarrow> 0 \<le> Store (?a ! i)"
  proof (intro allI impI)
    fix i assume "i < length df"
    then have "2 \<le> Store (?a ! i)"
      using SPB_store_ge2 [OF assms(3) s0 inflow_ge2, of i df P] by (simp add: inflow_length)
    then show "0 \<le> Store (?a ! i)" by simp
  qed
  with a la show "\<exists>out g'. balance_SPB P c g (inflow df) = Inr (out, g') \<and>
      length out = length df \<and> (\<forall>i. i < length df \<longrightarrow> 0 \<le> Store (out ! i))"
    by (intro exI conjI)
  have "\<forall>i. i < length df \<longrightarrow> 0 \<le> Store (?b ! i)"
  proof (intro allI impI)
    fix i assume "i < length df"
    then have "2 \<le> Store (?b ! i)"
      using SE300_store_ge2 [OF assms(3) s0 inflow_ge2, of i df P] by (simp add: inflow_length)
    then show "0 \<le> Store (?b ! i)" by simp
  qed
  with b lb show "\<exists>out g'. balance_SE300 P c g (inflow df) = Inr (out, g') \<and>
      length out = length df \<and> (\<forall>i. i < length df \<longrightarrow> 0 \<le> Store (out ! i))"
    by (intro exI conjI)
qed

theorem reservoir_never_negative_witness:
  "example_frame \<noteq> [] \<and> store0 SPB_config = 20000 \<and> 0 \<le> impl SPB_config \<and>
   ((\<exists>out g'. balance_SPB (replay [0.6229016948897019, 0.7417869892607294]) SPB_config []
                 (inflow example_frame) = Inr (out, g') \<and> length out = length example_frame \<and>
            (\<forall>i. i < length example_frame \<longrightarrow> 0 \<le> Store (out ! i))) \<and>
    (\<exists>out g'. balance_SE300 (replay [0.6229016948897019, 0.7417869892607294]) SPB_config []
                 (inflow example_frame) = Inr (out, g') \<and> length out = length example_frame \<and>
            (\<forall>i. i < length example_frame \<longrightarrow> 0 \<le> Store (out ! i))))"
proof -
  have ne: "example_frame \<noteq> []" by (simp add: example_frame_def)
  have s: "store0 SPB_config = 20000" by (simp add: SPB_config_def)
  have i: "0 \<le> impl SPB_config" by (simp add: SPB_config_def)
  show ?thesis
    by (intro conjI ne s i reservoir_never_negative [OF ne s i, THEN conjunct1]
          reservoir_never_negative [OF ne s i, THEN conjunct2])
qed

lemma fold_upt_step:
  assumes fr: "\<And>i j s. i \<noteq> j \<Longrightarrow> fst (f i s) ! j = fst s ! j"
    and len: "\<And>i s. length (fst (f i s)) = length (fst s)"
    and i: "1 \<le> i" "i < n"
  obtains pre where
    "fst (fold f [1..<n] s0) ! i = fst (f i pre) ! i"
    "fst (fold f [1..<n] s0) ! (i - 1) = fst pre ! (i - 1)"
    "fst pre ! i = fst s0 ! i"
    "length (fst pre) = length (fst s0)"
proof -
  let ?pre = "fold f [1..<i] s0"
  have "fst (fold f [1..<n] s0) ! i = fst (f i ?pre) ! i"
    using fold_upt_row [of f i n s0] fr i by blast
  moreover have "fst (fold f [1..<n] s0) ! (i - 1) = fst ?pre ! (i - 1)"
    using fold_upt_prev [of f i n s0] fr i by simp
  moreover have "fst ?pre ! i = fst s0 ! i"
    using fold_upt_later [of f i i s0] fr by simp
  moreover have "length (fst ?pre) = length (fst s0)"
    using fold_length [of f "[1..<i]" s0] len by simp
  ultimately show thesis using that by blast
qed

lemma hstep_SPB_frame: "i \<noteq> j \<Longrightarrow> fst (hstep_SPB i s) ! j = fst s ! j"
  by (simp add: hstep_SPB_def Let_def split: prod.splits)

lemma hstep_SPB_length: "length (fst (hstep_SPB i s)) = length (fst s)"
  by (simp add: hstep_SPB_def Let_def split: prod.splits)

lemma hstep_SPB_row:
  assumes "i < length (fst s)"
  shows "Hydrogen (fst (hstep_SPB i s) ! i) =
           Hydrogen (fst s ! (i - 1))
             + (if 0 \<le> rrow.Residual (fst s ! i) then 0.02 else 0.05) * rrow.Residual (fst s ! i)"
    and "rrow.Residual (fst (hstep_SPB i s) ! i) = rrow.Residual (fst s ! i)"
  using assms by (cases s rule: prod_cases3; simp add: hstep_SPB_def Let_def)+

lemma hstep_SE300_frame: "i \<noteq> j \<Longrightarrow> fst (hstep_SE300 c i s) ! j = fst s ! j"
  by (simp add: hstep_SE300_def Let_def split: prod.splits)

lemma hstep_SE300_length: "length (fst (hstep_SE300 c i s)) = length (fst s)"
  by (simp add: hstep_SE300_def Let_def split: prod.splits)

lemma hstep_SE300_row:
  assumes "i < length (fst s)"
  shows "Hydrogen (fst (hstep_SE300 c i s) ! i) =
           Hydrogen (fst s ! (i - 1))
             + (if 0 \<le> rrow.Residual (fst s ! i)
                then 0.02 * min (rrow.Residual (fst s ! i)) (elyscap c)
                else 0.05 * rrow.Residual (fst s ! i))"
    and "rrow.Residual (fst (hstep_SE300 c i s) ! i) = rrow.Residual (fst s ! i)"
  using assms by (cases s rule: prod_cases5; simp add: hstep_SE300_def Let_def)+

lemma init_hydrogen_length: "length (init_hydrogen (residual_col df)) = length df"
  by (simp add: init_hydrogen_def residual_col_def)

lemma hydrogen_SPB_length: "length (fst (hydrogen_SPB df)) = length df"
  unfolding hydrogen_SPB_def
  by (subst fold_length) (simp_all add: hstep_SPB_length init_hydrogen_length)

lemma hydrogen_SE300_length: "length (fst (hydrogen_SE300 c df)) = length df"
  unfolding hydrogen_SE300_def
  by (subst fold_length) (simp_all add: hstep_SE300_length init_hydrogen_length)

lemma hydrogen_SPB_row:
  assumes "1 \<le> i" "i < length df"
  shows "Hydrogen (fst (hydrogen_SPB df) ! i) =
           Hydrogen (fst (hydrogen_SPB df) ! (i - 1))
             + (if 0 \<le> rrow.Residual (fst (hydrogen_SPB df) ! i) then 0.02 else 0.05)
               * rrow.Residual (fst (hydrogen_SPB df) ! i)"
proof -
  let ?s0 = "(init_hydrogen (residual_col df), 0::real, 0::real)"
  obtain pre where p:
    "fst (fold hstep_SPB [1..<length df] ?s0) ! i = fst (hstep_SPB i pre) ! i"
    "fst (fold hstep_SPB [1..<length df] ?s0) ! (i - 1) = fst pre ! (i - 1)"
    "fst pre ! i = fst ?s0 ! i"
    "length (fst pre) = length (fst ?s0)"
    by (rule fold_upt_step [of hstep_SPB i "length df" ?s0,
          OF hstep_SPB_frame hstep_SPB_length assms])
  have "i < length (fst pre)" using p(4) assms by (simp add: init_hydrogen_length)
  from hstep_SPB_row [OF this] show ?thesis
    unfolding hydrogen_SPB_def p(1) p(2) by simp
qed

lemma hydrogen_SE300_row:
  assumes "1 \<le> i" "i < length df"
  shows "Hydrogen (fst (hydrogen_SE300 c df) ! i) =
           Hydrogen (fst (hydrogen_SE300 c df) ! (i - 1))
             + (if 0 \<le> rrow.Residual (fst (hydrogen_SE300 c df) ! i)
                then 0.02 * min (rrow.Residual (fst (hydrogen_SE300 c df) ! i)) (elyscap c)
                else 0.05 * rrow.Residual (fst (hydrogen_SE300 c df) ! i))"
proof -
  let ?s0 = "(init_hydrogen (residual_col df), 0::real, 0::real, 0::real, 0::real)"
  obtain pre where p:
    "fst (fold (hstep_SE300 c) [1..<length df] ?s0) ! i = fst (hstep_SE300 c i pre) ! i"
    "fst (fold (hstep_SE300 c) [1..<length df] ?s0) ! (i - 1) = fst pre ! (i - 1)"
    "fst pre ! i = fst ?s0 ! i"
    "length (fst pre) = length (fst ?s0)"
    by (rule fold_upt_step [of "hstep_SE300 c" i "length df" ?s0,
          OF hstep_SE300_frame hstep_SE300_length assms])
  have "i < length (fst pre)" using p(4) assms by (simp add: init_hydrogen_length)
  from hstep_SE300_row [OF this, of c] show ?thesis
    unfolding hydrogen_SE300_def p(1) p(2) by simp
qed

subsection \<open>The scripts run on the three example hours\<close>

lemma example_balance_SPB:
  "map_sum id fst
     (balance_SPB (replay [0.6229016948897019, 0.7417869892607294]) SPB_config [] example_frame) =
   Inr [\<lparr>Date = 1588291200, Wind = 25, Tout = 339 / 10, Nuclear = 13 / 2,
         HoY = 0, Inflow = 14 / 5, Store = 20000, Pout = 339 / 10,
         Waout = 0, Import = 0, Export = 0, Pnet = 299 / 10, Residual = 0,
         Hydrogen = 0, eStore = 0\<rparr>,
      \<lparr>Date = 1588294800, Wind = 36, Tout = 339 / 10, Nuclear = 13 / 2,
         HoY = 1, Inflow = 28001 / 10000,
         Store = 100009865518033822414643 / 5000000000000000000,
         Pout = 77 / 2, Waout = 4134981966177585357 / 5000000000000000000,
         Import = 5865018033822414643 / 5000000000000000000, Export = 6,
         Pnet = 89 / 2, Residual = 0, Hydrogen = 0, eStore = 0\<rparr>,
      \<lparr>Date = 1588298400, Wind = 6, Tout = 339 / 10, Nuclear = 13 / 2,
         HoY = 2, Inflow = 5601 / 2000,
         Store = 99958868018033822414643 / 5000000000000000000,
         Pout = 63 / 2, Waout = 13, Import = 6, Export = 0, Pnet = 63 / 2,
         Residual = 0, Hydrogen = 0, eStore = 0\<rparr>]"
  by code_simp

lemma example_main_SE300:
  "main_SE300 (replay [0.6229016948897019, 0.7417869892607294]) SE300_config [] example_frame =
   Inr [\<lparr>Date = 1588291200, Wind = 25, Tout = 339 / 10, Nuclear = 13 / 2,
         HoY = 0, Inflow = 14 / 5, Store = 20000, Pout = 339 / 10,
         Waout = 0, Import = 0, Export = 0, Pnet = 299 / 10, Residual = 0,
         Hydrogen = 0, eStore = 0\<rparr>,
      \<lparr>Date = 1588294800, Wind = 36, Tout = 339 / 10, Nuclear = 13 / 2,
         HoY = 1, Inflow = 28001 / 10000, Store = 200008001 / 10000,
         Pout = 77 / 2, Waout = 2, Import = 0, Export = 6, Pnet = 89 / 2,
         Residual = 23 / 5, Hydrogen = 0, eStore = 23 / 5\<rparr>,
      \<lparr>Date = 1588298400, Wind = 6, Tout = 339 / 10, Nuclear = 13 / 2,
         HoY = 2, Inflow = 5601 / 2000, Store = 99953003 / 5000,
         Pout = 63 / 2, Waout = 13, Import = 6, Export = 0, Pnet = 63 / 2,
         Residual = - (12 / 5), Hydrogen = - (3 / 25), eStore = 11 / 5\<rparr>]"
  by code_simp

text \<open>
  C1. SwedenPowerBalance.py on the example hours, with the draws that
  \<open>random.random()\<close> returns after \<open>random.seed(5)\<close>: in hour 1 the water balance sets
  hydro to its minimum 2, and the exchange of water for import takes about 1.17 of it,
  so the hydro power written is about 0.83, below the minimum.
\<close>

theorem SPB_hydro_below_minimum:
  "map Waout (rows_of (map_sum id fst
      (balance_SPB (replay [0.6229016948897019, 0.7417869892607294]) SPB_config []
         example_frame))) =
     [0, 4134981966177585357 / 5000000000000000000, 13] \<and>
   Waout (rows_of (map_sum id fst
      (balance_SPB (replay [0.6229016948897019, 0.7417869892607294]) SPB_config []
         example_frame)) ! 1) < 2"
  unfolding example_balance_SPB by (simp add: rows_of_def)

text \<open>
  C5, as stated, fails in SE300wind.py: hour 1 of the example has residual 4.6, and the
  hydrogen store stays at 0 instead of rising by 0.02 * 4.6.
\<close>

theorem hydrogen_rate_counterexample:
  "map rrow.Residual (rows_of (main_SE300 (replay [0.6229016948897019, 0.7417869892607294])
       SE300_config [] example_frame)) = [0, 4.6, - 2.4] \<and>
   map Hydrogen (rows_of (main_SE300 (replay [0.6229016948897019, 0.7417869892607294])
       SE300_config [] example_frame)) = [0, 0, - 0.12] \<and>
   Hydrogen (rows_of (main_SE300 (replay [0.6229016948897019, 0.7417869892607294])
       SE300_config [] example_frame) ! 1) \<noteq>
   Hydrogen (rows_of (main_SE300 (replay [0.6229016948897019, 0.7417869892607294])
       SE300_config [] example_frame) ! 0)
     + 0.02 * rrow.Residual (rows_of (main_SE300
         (replay [0.6229016948897019, 0.7417869892607294]) SE300_config [] example_frame) ! 1)"
  unfolding example_main_SE300 by (simp add: rows_of_def)

lemma main_SPB_Inr:
  assumes "df \<noteq> []"
  shows "main_SPB P c g df = Inr (fst (hydrogen_SPB (rows_reservoir hour_SPB P c df)))"
proof -
  obtain g' where "balance_SPB P c g df = Inr (rows_reservoir hour_SPB P c df, g')"
    unfolding balance_SPB_def using balance_reservoir_Inr [OF assms, of hour_SPB P c g] by blast
  then show ?thesis by (simp add: main_SPB_def)
qed

lemma main_SE300_Inr:
  assumes "df \<noteq> []"
  shows "main_SE300 P c g df = Inr (fst (hydrogen_SE300 c (rows_reservoir hour_SE300 P c df)))"
proof -
  obtain g' where "balance_SE300 P c g df = Inr (rows_reservoir hour_SE300 P c df, g')"
    unfolding balance_SE300_def using balance_reservoir_Inr [OF assms, of hour_SE300 P c g]
    by blast
  then show ?thesis by (simp add: main_SE300_def)
qed

text \<open>
  C5, amended. For every hour \<open>i \<ge> 1\<close>: a negative residual lowers the hydrogen store
  by 0.05 per unit in both scripts; a non-negative residual raises it by 0.02 per unit in
  SwedenPowerBalance.py, and by 0.02 per unit of \<open>min(Residual, elyscap)\<close> in
  SE300wind.py.
\<close>

theorem hydrogen_store_update:
  assumes "df \<noteq> []"
  shows "(\<exists>out. main_SPB P c g df = Inr out \<and> length out = length df \<and>
            (\<forall>i. 1 \<le> i \<and> i < length df \<longrightarrow>
               Hydrogen (out ! i) = Hydrogen (out ! (i - 1))
                 + (if 0 \<le> rrow.Residual (out ! i) then 0.02 * rrow.Residual (out ! i)
                    else 0.05 * rrow.Residual (out ! i)))) \<and>
         (\<exists>out. main_SE300 P c g df = Inr out \<and> length out = length df \<and>
            (\<forall>i. 1 \<le> i \<and> i < length df \<longrightarrow>
               Hydrogen (out ! i) = Hydrogen (out ! (i - 1))
                 + (if 0 \<le> rrow.Residual (out ! i)
                    then 0.02 * min (rrow.Residual (out ! i)) (elyscap c)
                    else 0.05 * rrow.Residual (out ! i))))"
proof (rule conjI)
  let ?a = "rows_reservoir hour_SPB P c df"
  let ?b = "rows_reservoir hour_SE300 P c df"
  have la: "length ?a = length df" and lb: "length ?b = length df"
    by (simp_all add: rows_reservoir_length)
  have "\<forall>i. 1 \<le> i \<and> i < length df \<longrightarrow>
          Hydrogen (fst (hydrogen_SPB ?a) ! i) = Hydrogen (fst (hydrogen_SPB ?a) ! (i - 1))
            + (if 0 \<le> rrow.Residual (fst (hydrogen_SPB ?a) ! i)
               then 0.02 * rrow.Residual (fst (hydrogen_SPB ?a) ! i)
               else 0.05 * rrow.Residual (fst (hydrogen_SPB ?a) ! i))"
  proof (intro allI impI)
    fix i assume "1 \<le> i \<and> i < length df"
    then show "Hydrogen (fst (hydrogen_SPB ?a) ! i) = Hydrogen (fst (hydrogen_SPB ?a) ! (i - 1))
            + (if 0 \<le> rrow.Residual (fst (hydrogen_SPB ?a) ! i)
               then 0.02 * rrow.Residual (fst (hydrogen_SPB ?a) ! i)
               else 0.05 * rrow.Residual (fst (hydrogen_SPB ?a) ! i))"
      using hydrogen_SPB_row [of i ?a] la by simp
  qed
  then show "\<exists>out. main_SPB P c g df = Inr out \<and> length out = length df \<and>
            (\<forall>i. 1 \<le> i \<and> i < length df \<longrightarrow>
               Hydrogen (out ! i) = Hydrogen (out ! (i - 1))
                 + (if 0 \<le> rrow.Residual (out ! i) then 0.02 * rrow.Residual (out ! i)
                    else 0.05 * rrow.Residual (out ! i)))"
    using main_SPB_Inr [OF assms, of P c g] hydrogen_SPB_length [of ?a] la
    by (intro exI [of _ "fst (hydrogen_SPB ?a)"]) simp
  have "\<forall>i. 1 \<le> i \<and> i < length df \<longrightarrow>
          Hydrogen (fst (hydrogen_SE300 c ?b) ! i) = Hydrogen (fst (hydrogen_SE300 c ?b) ! (i - 1))
            + (if 0 \<le> rrow.Residual (fst (hydrogen_SE300 c ?b) ! i)
               then 0.02 * min (rrow.Residual (fst (hydrogen_SE300 c ?b) ! i)) (elyscap c)
               else 0.05 * rrow.Residual (fst (hydrogen_SE300 c ?b) ! i))"
  proof (intro allI impI)
    fix i assume "1 \<le> i \<and> i < length df"
    then show "Hydrogen (fst (hydrogen_SE300 c ?b) ! i) = Hydrogen (fst (hydrogen_SE300 c ?b) ! (i - 1))
            + (if 0 \<le> rrow.Residual (fst (hydrogen_SE300 c ?b) ! i)
               then 0.02 * min (rrow.Residual (fst (hydrogen_SE300 c ?b) ! i)) (elyscap c)
               else 0.05 * rrow.Residual (fst (hydrogen_SE300 c ?b) ! i))"
      using hydrogen_SE300_row [of i ?b c] lb by simp
  qed
  then show "\<exists>out. main_SE300 P c g df = Inr out \<and> length out = length df \<and>
            (\<forall>i. 1 \<le> i \<and> i < length df \<longrightarrow>
               Hydrogen (out ! i) = Hydrogen (out ! (i - 1))
                 + (if 0 \<le> rrow.Residual (out ! i)
                    then 0.02 * min (rrow.Residual (out ! i)) (elyscap c)
                    else 0.05 * rrow.Residual (out ! i)))"
    using main_SE300_Inr [OF assms, of P c g] hydrogen_SE300_length [of c ?b] lb
    by (intro exI [of _ "fst (hydrogen_SE300 c ?b)"]) simp
qed

theorem hydrogen_store_update_witness:
  "example_frame \<noteq> [] \<and>
   ((\<exists>out. main_SPB (replay [0.6229016948897019, 0.7417869892607294]) SPB_config []
              example_frame = Inr out \<and> length out = length example_frame \<and>
            (\<forall>i. 1 \<le> i \<and> i < length example_frame \<longrightarrow>
               Hydrogen (out ! i) = Hydrogen (out ! (i - 1))
                 + (if 0 \<le> rrow.Residual (out ! i) then 0.02 * rrow.Residual (out ! i)
                    else 0.05 * rrow.Residual (out ! i)))) \<and>
    (\<exists>out. main_SE300 (replay [0.6229016948897019, 0.7417869892607294]) SPB_config []
              example_frame = Inr out \<and> length out = length example_frame \<and>
            (\<forall>i. 1 \<le> i \<and> i < length example_frame \<longrightarrow>
               Hydrogen (out ! i) = Hydrogen (out ! (i - 1))
                 + (if 0 \<le> rrow.Residual (out ! i)
                    then 0.02 * min (rrow.Residual (out ! i)) (elyscap SPB_config)
                    else 0.05 * rrow.Residual (out ! i)))))"
proof -
  have ne: "example_frame \<noteq> []" by (simp add: example_frame_def)
  show ?thesis
    by (rule conjI [OF ne hydrogen_store_update [OF ne]])
qed

lemma scenario3_run:
  "main_SPB (replay [0.6229016948897019, 0.7417869892607294]) scenario3_config []
     scenario3_frame =
   Inr [\<lparr>Date = 0, Wind = 5, Tout = 8, Nuclear = 5, HoY = 0, Inflow = 0,
          Store = 100, Pout = 8, Waout = 0, Import = 0, Export = 0, Pnet = 8, Residual = 0,
          Hydrogen = 0, eStore = 0\<rparr>,
        \<lparr>Date = 0, Wind = 5, Tout = 12, Nuclear = 5, HoY = 0, Inflow = 0,
          Store = 98, Pout = 12, Waout = 2, Import = 0, Export = 0, Pnet = 12, Residual = 0,
          Hydrogen = 0, eStore = 0\<rparr>,
        \<lparr>Date = 0, Wind = 5, Tout = 6, Nuclear = 5, HoY = 0, Inflow = 0,
          Store = 96, Pout = 12, Waout = 2, Import = 0, Export = 0, Pnet = 12, Residual = 6,
          Hydrogen = 3 / 25, eStore = 6\<rparr>]"
  by code_simp

text \<open>
  C6, as stated, fails: on the scenario SwedenPowerBalance.py does not write hydro
  \<open>[2, 2, 2]\<close> and residual \<open>[2, 0, 4]\<close>.
\<close>

theorem scenario3_counterexample:
  "\<not> (map Waout (rows_of (main_SPB (replay [0.6229016948897019, 0.7417869892607294])
            scenario3_config [] scenario3_frame)) = [2, 2, 2] \<and>
      map rrow.Residual (rows_of (main_SPB (replay [0.6229016948897019, 0.7417869892607294])
            scenario3_config [] scenario3_frame)) = [2, 0, 4])"
  unfolding scenario3_run by (simp add: rows_of_def)

text \<open>
  C6, amended. On the scenario the script writes hydro \<open>[0, 2, 2]\<close> and residual
  \<open>[0, 0, 6]\<close>: hour 0 is the initialisation row (no hydro, production set to demand),
  and in hour 2 the minimum hydro is part of the production, 5 + 2 + 5 - 6 = 6.
\<close>

theorem scenario3_dispatch:
  "map Waout (rows_of (main_SPB (replay [0.6229016948897019, 0.7417869892607294])
       scenario3_config [] scenario3_frame)) = [0, 2, 2] \<and>
   map rrow.Residual (rows_of (main_SPB (replay [0.6229016948897019, 0.7417869892607294])
       scenario3_config [] scenario3_frame)) = [0, 0, 6]"
  unfolding scenario3_run by (simp add: rows_of_def)

subsection \<open>The loop of SvK_EF_nuclear.py\<close>

lemma step_nuclear_frame: "i \<noteq> j \<Longrightarrow> fst (step_nuclear c i s) ! j = fst s ! j"
  by (cases s rule: prod_cases3) (simp add: step_nuclear_def Let_def split: prod.splits)

lemma step_nuclear_length: "length (fst (step_nuclear c i s)) = length (fst s)"
  by (cases s rule: prod_cases3) (simp add: step_nuclear_def Let_def split: prod.splits)

lemma step_nuclear_row:
  assumes "i < length (fst s)"
    and "hour_nuclear c (hrow.Wind (fst s ! i)) (Consumption (fst s ! i)) (Heat (fst s ! i))
           = (water, imp, exp', eload, flex)"
  shows "Water (fst (step_nuclear c i s) ! i) = water"
    "hrow.Import (fst (step_nuclear c i s) ! i) = imp"
    "hrow.Export (fst (step_nuclear c i s) ! i) = exp'"
    "Consumption (fst (step_nuclear c i s) ! i) = Consumption (fst s ! i) + (eload - flex)"
    "hrow.Wind (fst (step_nuclear c i s) ! i) = hrow.Wind (fst s ! i)"
    "Heat (fst (step_nuclear c i s) ! i) = Heat (fst s ! i)"
  using assms by (cases s rule: prod_cases3; simp add: step_nuclear_def Let_def)+

lemma balance_nuclear_Inr:
  "df \<noteq> [] \<Longrightarrow> balance_nuclear c H L df =
     Inr (fold (step_nuclear c) [1..<length df] (init_nuclear c df, H, L))"
  by (simp add: balance_nuclear_def)

lemma init_nuclear_length: "length (init_nuclear c df) = length df"
  by (simp add: init_nuclear_def)

lemma init_nuclear_later: "1 \<le> i \<Longrightarrow> init_nuclear c df ! i = df ! i"
  by (simp add: init_nuclear_def)

lemma init_nuclear_row0:
  "df \<noteq> [] \<Longrightarrow> hrow.Import (init_nuclear c df ! 0) = 0 \<and> hrow.Export (init_nuclear c df ! 0) = 0"
  by (simp add: init_nuclear_def)

lemma nuclear_length:
  "length (fst (fold (step_nuclear c) [1..<n] (init_nuclear c df, H, L))) = length df"
  by (subst fold_length) (simp_all add: step_nuclear_length init_nuclear_length)

lemma nuclear_row0:
  "fst (fold (step_nuclear c) [1..<n] (init_nuclear c df, H, L)) ! 0 = init_nuclear c df ! 0"
  by (subst fold_upt_zero) (simp_all add: step_nuclear_frame)

lemma nuclear_rows:
  assumes i: "1 \<le> i" "i < length df"
    and h: "hour_nuclear c (hrow.Wind (df ! i)) (Consumption (df ! i)) (Heat (df ! i))
           = (water, imp, exp', eload, flex)"
    and out: "out = fst (fold (step_nuclear c) [1..<length df] (init_nuclear c df, H, L))"
  shows "Water (out ! i) = water" "hrow.Import (out ! i) = imp" "hrow.Export (out ! i) = exp'"
    "Consumption (out ! i) = Consumption (df ! i) + (eload - flex)"
    "hrow.Wind (out ! i) = hrow.Wind (df ! i)" "Heat (out ! i) = Heat (df ! i)"
proof -
  let ?s0 = "(init_nuclear c df, H, L)"
  obtain pre where p:
    "fst (fold (step_nuclear c) [1..<length df] ?s0) ! i = fst (step_nuclear c i pre) ! i"
    "fst (fold (step_nuclear c) [1..<length df] ?s0) ! (i - 1) = fst pre ! (i - 1)"
    "fst pre ! i = fst ?s0 ! i"
    "length (fst pre) = length (fst ?s0)"
    by (rule fold_upt_step [of "step_nuclear c" i "length df" ?s0,
          OF step_nuclear_frame step_nuclear_length i])
  have l: "i < length (fst pre)" using p(4) i by (simp add: init_nuclear_length)
  have r: "fst pre ! i = df ! i" using p(3) i by (simp add: init_nuclear_later)
  have h': "hour_nuclear c (hrow.Wind (fst pre ! i)) (Consumption (fst pre ! i))
              (Heat (fst pre ! i)) = (water, imp, exp', eload, flex)"
    using h by (simp add: r)
  show "Water (out ! i) = water" "hrow.Import (out ! i) = imp" "hrow.Export (out ! i) = exp'"
    "Consumption (out ! i) = Consumption (df ! i) + (eload - flex)"
    "hrow.Wind (out ! i) = hrow.Wind (df ! i)" "Heat (out ! i) = Heat (df ! i)"
    unfolding out p(1) using step_nuclear_row [OF l h'] by (simp_all add: r)
qed

lemma hour_nuclear_bounds:
  assumes "hour_nuclear c wind load con = (water, imp, exp', eload, flex)"
  shows "0 \<le> impl c \<Longrightarrow> 0 \<le> imp \<and> imp \<le> impl c"
    and "0 \<le> expl c \<Longrightarrow> 0 \<le> exp' \<and> exp' \<le> expl c"
    and "imp = 0 \<or> exp' = 0"
    and "0 < imp \<Longrightarrow> (wind + con + water) - load \<le> 0"
    and "0 < exp' \<Longrightarrow> 0 < (wind + con + water) - load"
  using assms
  by (auto simp: hour_nuclear_def Let_def min_def split: if_splits)

subsection \<open>The loop of SvK_EF_wind.py\<close>

lemma store_flow_Inr:
  "rtp_eff c \<noteq> 0 \<Longrightarrow>
     store_flow c d = Inr (if d < 0 then d / rtp_eff c else d)"
  by (simp add: store_flow_def)

lemma step_wind_Inr:
  assumes "rtp_eff c \<noteq> 0"
  shows "\<exists>s'. step_wind c i s = Inr s'"
  by (cases s rule: prod_cases3)
    (simp add: step_wind_def Let_def store_flow_Inr [OF assms] split: prod.splits)

lemma loop_wind_fold:
  assumes "rtp_eff c \<noteq> 0"
  shows "loop_wind c js s = Inr (fold (\<lambda>i s. projr (step_wind c i s)) js s)"
proof (induction js arbitrary: s)
  case Nil
  show ?case by simp
next
  case (Cons j js)
  obtain s' where "step_wind c j s = Inr s'" using step_wind_Inr [OF assms] by blast
  then show ?case using Cons by simp
qed

lemma step_wind_frame:
  "rtp_eff c \<noteq> 0 \<Longrightarrow> i \<noteq> j \<Longrightarrow> fst (projr (step_wind c i s)) ! j = fst s ! j"
  by (cases s rule: prod_cases3)
    (simp add: step_wind_def Let_def store_flow_Inr split: prod.splits)

lemma step_wind_length:
  "rtp_eff c \<noteq> 0 \<Longrightarrow> length (fst (projr (step_wind c i s))) = length (fst s)"
  by (cases s rule: prod_cases3)
    (simp add: step_wind_def Let_def store_flow_Inr split: prod.splits)

lemma step_wind_row:
  assumes "rtp_eff c \<noteq> 0" "i < length (fst s)"
    and "hour_wind c (hrow.Wind (fst s ! i) + Heat (fst s ! i)) (Consumption (fst s ! i))
           = (water, imp, exp', eload, flex, def_store)"
  shows "Water (fst (projr (step_wind c i s)) ! i) = water"
    "hrow.Import (fst (projr (step_wind c i s)) ! i) = imp"
    "hrow.Export (fst (projr (step_wind c i s)) ! i) = exp'"
    "Consumption (fst (projr (step_wind c i s)) ! i) = Consumption (fst s ! i) + (eload - flex)"
    "hrow.Wind (fst (projr (step_wind c i s)) ! i) = hrow.Wind (fst s ! i)"
    "Heat (fst (projr (step_wind c i s)) ! i) = Heat (fst s ! i)"
    "dStore (fst (projr (step_wind c i s)) ! i) =
       dStore (fst s ! (i - 1)) + (if def_store < 0 then def_store / rtp_eff c else def_store)"
  using assms
  by (cases s rule: prod_cases3; simp add: step_wind_def Let_def store_flow_Inr)+

lemma balance_wind_Inr:
  "rtp_eff c \<noteq> 0 \<Longrightarrow> df \<noteq> [] \<Longrightarrow> balance_wind c H L df =
     Inr (fold (\<lambda>i s. projr (step_wind c i s)) [1..<length df] (init_wind df, H, L))"
  by (simp add: balance_wind_def loop_wind_fold)

lemma init_wind_length: "length (init_wind df) = length df"
  by (simp add: init_wind_def)

lemma init_wind_later: "1 \<le> i \<Longrightarrow> init_wind df ! i = df ! i"
  by (simp add: init_wind_def)

lemma init_wind_row0:
  "df \<noteq> [] \<Longrightarrow> hrow.Import (init_wind df ! 0) = 0 \<and> hrow.Export (init_wind df ! 0) = 0"
  by (simp add: init_wind_def)

lemma wind_length:
  "rtp_eff c \<noteq> 0 \<Longrightarrow>
   length (fst (fold (\<lambda>i s. projr (step_wind c i s)) [1..<n] (init_wind df, H, L))) = length df"
  by (subst fold_length) (simp_all add: step_wind_length init_wind_length)

lemma wind_row0:
  "rtp_eff c \<noteq> 0 \<Longrightarrow>
   fst (fold (\<lambda>i s. projr (step_wind c i s)) [1..<n] (init_wind df, H, L)) ! 0 = init_wind df ! 0"
  by (subst fold_upt_zero) (simp_all add: step_wind_frame)

lemma wind_rows:
  assumes e: "rtp_eff c \<noteq> 0" and i: "1 \<le> i" "i < length df"
    and h: "hour_wind c (hrow.Wind (df ! i) + Heat (df ! i)) (Consumption (df ! i))
           = (water, imp, exp', eload, flex, def_store)"
    and out: "out = fst (fold (\<lambda>i s. projr (step_wind c i s)) [1..<length df]
                           (init_wind df, H, L))"
  shows "Water (out ! i) = water" "hrow.Import (out ! i) = imp" "hrow.Export (out ! i) = exp'"
    "Consumption (out ! i) = Consumption (df ! i) + (eload - flex)"
    "hrow.Wind (out ! i) = hrow.Wind (df ! i)" "Heat (out ! i) = Heat (df ! i)"
    "dStore (out ! i) =
       dStore (out ! (i - 1)) + (if def_store < 0 then def_store / rtp_eff c else def_store)"
proof -
  let ?f = "\<lambda>i s. projr (step_wind c i s)"
  let ?s0 = "(init_wind df, H, L)"
  have fr: "\<And>i j s. i \<noteq> j \<Longrightarrow> fst (?f i s) ! j = fst s ! j"
    using step_wind_frame [OF e] by simp
  have len: "\<And>i s. length (fst (?f i s)) = length (fst s)"
    using step_wind_length [OF e] by simp
  obtain pre where p:
    "fst (fold ?f [1..<length df] ?s0) ! i = fst (?f i pre) ! i"
    "fst (fold ?f [1..<length df] ?s0) ! (i - 1) = fst pre ! (i - 1)"
    "fst pre ! i = fst ?s0 ! i"
    "length (fst pre) = length (fst ?s0)"
    by (rule fold_upt_step [of ?f i "length df" ?s0, OF fr len i])
  have l: "i < length (fst pre)" using p(4) i by (simp add: init_wind_length)
  have r: "fst pre ! i = df ! i" using p(3) i by (simp add: init_wind_later)
  have h': "hour_wind c (hrow.Wind (fst pre ! i) + Heat (fst pre ! i)) (Consumption (fst pre ! i))
              = (water, imp, exp', eload, flex, def_store)"
    using h by (simp add: r)
  show "Water (out ! i) = water" "hrow.Import (out ! i) = imp" "hrow.Export (out ! i) = exp'"
    "Consumption (out ! i) = Consumption (df ! i) + (eload - flex)"
    "hrow.Wind (out ! i) = hrow.Wind (df ! i)" "Heat (out ! i) = Heat (df ! i)"
    "dStore (out ! i) =
       dStore (out ! (i - 1)) + (if def_store < 0 then def_store / rtp_eff c else def_store)"
    unfolding out p(1) p(2) using step_wind_row [OF e l h'] by (simp_all add: r)
qed

lemma hour_wind_bounds:
  assumes "hour_wind c must_run load = (water, imp, exp', eload, flex, def_store)"
  shows "0 \<le> impl c \<Longrightarrow> 0 \<le> imp \<and> imp \<le> impl c"
    and "0 \<le> expl c \<Longrightarrow> 0 \<le> exp' \<and> exp' \<le> expl c"
    and "imp = 0 \<or> exp' = 0"
    and "0 < imp \<Longrightarrow> must_run + water - load < 0"
    and "0 < exp' \<Longrightarrow> 0 \<le> must_run + water - load"
  using assms
  by (auto simp: hour_wind_def Let_def min_def split: if_splits)

lemma hour_wind_rtp_eff: "hour_wind (c\<lparr>rtp_eff := e\<rparr>) must_run load = hour_wind c must_run load"
proof -
  have f: "wlim_low (c\<lparr>rtp_eff := e\<rparr>) = wlim_low c"
    "wlim_high (c\<lparr>rtp_eff := e\<rparr>) = wlim_high c"
    "dStore_InCap (c\<lparr>rtp_eff := e\<rparr>) = dStore_InCap c"
    "dStore_OutCap (c\<lparr>rtp_eff := e\<rparr>) = dStore_OutCap c"
    "elyscap (c\<lparr>rtp_eff := e\<rparr>) = elyscap c"
    "flexmax (c\<lparr>rtp_eff := e\<rparr>) = flexmax c"
    "impl (c\<lparr>rtp_eff := e\<rparr>) = impl c"
    "expl (c\<lparr>rtp_eff := e\<rparr>) = expl c"
    by simp_all
  show ?thesis unfolding hour_wind_def f ..
qed

subsection \<open>Import and export in the hydrogen scripts\<close>

lemma nuclear_exclusive:
  assumes "df \<noteq> []"
  shows "\<exists>out H' L'. balance_nuclear c H L df = Inr (out, H', L') \<and> length out = length df \<and>
           (\<forall>i. 1 \<le> i \<and> i < length df \<longrightarrow>
              \<not> (0 < hrow.Import (out ! i) \<and> 0 < hrow.Export (out ! i)) \<and>
              (0 < hrow.Import (out ! i) \<longrightarrow>
                 (hrow.Wind (df ! i) + Heat (df ! i) + Water (out ! i)) - Consumption (df ! i) \<le> 0) \<and>
              (0 < hrow.Export (out ! i) \<longrightarrow>
                 0 < (hrow.Wind (df ! i) + Heat (df ! i) + Water (out ! i)) - Consumption (df ! i)))"
proof -
  let ?r = "fold (step_nuclear c) [1..<length df] (init_nuclear c df, H, L)"
  let ?out = "fst ?r"
  have b: "balance_nuclear c H L df = Inr (?out, fst (snd ?r), snd (snd ?r))"
    using balance_nuclear_Inr [OF assms, of c H L] by simp
  have l: "length ?out = length df" by (rule nuclear_length)
  have "\<forall>i. 1 \<le> i \<and> i < length df \<longrightarrow>
              \<not> (0 < hrow.Import (?out ! i) \<and> 0 < hrow.Export (?out ! i)) \<and>
              (0 < hrow.Import (?out ! i) \<longrightarrow>
                 (hrow.Wind (df ! i) + Heat (df ! i) + Water (?out ! i)) - Consumption (df ! i) \<le> 0) \<and>
              (0 < hrow.Export (?out ! i) \<longrightarrow>
                 0 < (hrow.Wind (df ! i) + Heat (df ! i) + Water (?out ! i)) - Consumption (df ! i))"
  proof (intro allI impI)
    fix i assume i: "1 \<le> i \<and> i < length df"
    obtain water imp exp' eload flex where
      h: "hour_nuclear c (hrow.Wind (df ! i)) (Consumption (df ! i)) (Heat (df ! i))
            = (water, imp, exp', eload, flex)"
      by (metis prod_cases5)
    have r: "Water (?out ! i) = water" "hrow.Import (?out ! i) = imp"
      "hrow.Export (?out ! i) = exp'"
      using nuclear_rows [OF _ _ h refl, of H L] i by simp_all
    show "\<not> (0 < hrow.Import (?out ! i) \<and> 0 < hrow.Export (?out ! i)) \<and>
              (0 < hrow.Import (?out ! i) \<longrightarrow>
                 (hrow.Wind (df ! i) + Heat (df ! i) + Water (?out ! i)) - Consumption (df ! i) \<le> 0) \<and>
              (0 < hrow.Export (?out ! i) \<longrightarrow>
                 0 < (hrow.Wind (df ! i) + Heat (df ! i) + Water (?out ! i)) - Consumption (df ! i))"
      unfolding r using hour_nuclear_bounds(3,4,5) [OF h] by auto
  qed
  with b l show ?thesis by blast
qed

lemma wind_exclusive:
  assumes "df \<noteq> []" and e: "rtp_eff c \<noteq> 0"
  shows "\<exists>out H' L'. balance_wind c H L df = Inr (out, H', L') \<and> length out = length df \<and>
           (\<forall>i. 1 \<le> i \<and> i < length df \<longrightarrow>
              \<not> (0 < hrow.Import (out ! i) \<and> 0 < hrow.Export (out ! i)) \<and>
              (0 < hrow.Import (out ! i) \<longrightarrow>
                 hrow.Wind (df ! i) + Heat (df ! i) + Water (out ! i) - Consumption (df ! i) < 0) \<and>
              (0 < hrow.Export (out ! i) \<longrightarrow>
                 0 \<le> hrow.Wind (df ! i) + Heat (df ! i) + Water (out ! i) - Consumption (df ! i)))"
proof -
  let ?r = "fold (\<lambda>i s. projr (step_wind c i s)) [1..<length df] (init_wind df, H, L)"
  let ?out = "fst ?r"
  have b: "balance_wind c H L df = Inr (?out, fst (snd ?r), snd (snd ?r))"
    using balance_wind_Inr [OF e assms(1), of H L] by simp
  have l: "length ?out = length df" by (rule wind_length [OF e])
  have "\<forall>i. 1 \<le> i \<and> i < length df \<longrightarrow>
              \<not> (0 < hrow.Import (?out ! i) \<and> 0 < hrow.Export (?out ! i)) \<and>
              (0 < hrow.Import (?out ! i) \<longrightarrow>
                 hrow.Wind (df ! i) + Heat (df ! i) + Water (?out ! i) - Consumption (df ! i) < 0) \<and>
              (0 < hrow.Export (?out ! i) \<longrightarrow>
                 0 \<le> hrow.Wind (df ! i) + Heat (df ! i) + Water (?out ! i) - Consumption (df ! i))"
  proof (intro allI impI)
    fix i assume i: "1 \<le> i \<and> i < length df"
    obtain water imp exp' eload flex def_store where
      h: "hour_wind c (hrow.Wind (df ! i) + Heat (df ! i)) (Consumption (df ! i))
            = (water, imp, exp', eload, flex, def_store)"
      by (metis prod_cases6)
    have r: "Water (?out ! i) = water" "hrow.Import (?out ! i) = imp"
      "hrow.Export (?out ! i) = exp'"
      using wind_rows [OF e _ _ h refl, of H L] i by simp_all
    show "\<not> (0 < hrow.Import (?out ! i) \<and> 0 < hrow.Export (?out ! i)) \<and>
              (0 < hrow.Import (?out ! i) \<longrightarrow>
                 hrow.Wind (df ! i) + Heat (df ! i) + Water (?out ! i) - Consumption (df ! i) < 0) \<and>
              (0 < hrow.Export (?out ! i) \<longrightarrow>
                 0 \<le> hrow.Wind (df ! i) + Heat (df ! i) + Water (?out ! i) - Consumption (df ! i))"
      unfolding r using hour_wind_bounds(3,4,5) [OF h] by auto
  qed
  with b l show ?thesis by blast
qed

text \<open>
  C10. In the hydrogen scripts, no hour \<open>i \<ge> 1\<close> has both import and export positive:
  import is positive only when production after hydro does not exceed demand (is below it,
  in SvK_EF_wind.py), export only when it exceeds demand (is not below it, in
  SvK_EF_wind.py).
\<close>

theorem import_export_exclusive:
  assumes "df \<noteq> []" and "rtp_eff cw \<noteq> 0"
  shows "(\<exists>out H' L'. balance_nuclear cn H L df = Inr (out, H', L') \<and> length out = length df \<and>
           (\<forall>i. 1 \<le> i \<and> i < length df \<longrightarrow>
              \<not> (0 < hrow.Import (out ! i) \<and> 0 < hrow.Export (out ! i)) \<and>
              (0 < hrow.Import (out ! i) \<longrightarrow>
                 (hrow.Wind (df ! i) + Heat (df ! i) + Water (out ! i)) - Consumption (df ! i) \<le> 0) \<and>
              (0 < hrow.Export (out ! i) \<longrightarrow>
                 0 < (hrow.Wind (df ! i) + Heat (df ! i) + Water (out ! i)) - Consumption (df ! i)))) \<and>
         (\<exists>out H' L'. balance_wind cw H L df = Inr (out, H', L') \<and> length out = length df \<and>
           (\<forall>i. 1 \<le> i \<and> i < length df \<longrightarrow>
              \<not> (0 < hrow.Import (out ! i) \<and> 0 < hrow.Export (out ! i)) \<and>
              (0 < hrow.Import (out ! i) \<longrightarrow>
                 hrow.Wind (df ! i) + Heat (df ! i) + Water (out ! i) - Consumption (df ! i) < 0) \<and>
              (0 < hrow.Export (out ! i) \<longrightarrow>
                 0 \<le> hrow.Wind (df ! i) + Heat (df ! i) + Water (out ! i) - Consumption (df ! i))))"
  by (rule conjI [OF nuclear_exclusive [OF assms(1)] wind_exclusive [OF assms]])

theorem import_export_exclusive_witness:
  "example_hframe \<noteq> [] \<and> rtp_eff wind_config \<noteq> 0 \<and>
   ((\<exists>out H' L'. balance_nuclear nuclear_config 0 0 example_hframe = Inr (out, H', L') \<and>
        length out = length example_hframe \<and>
           (\<forall>i. 1 \<le> i \<and> i < length example_hframe \<longrightarrow>
              \<not> (0 < hrow.Import (out ! i) \<and> 0 < hrow.Export (out ! i)) \<and>
              (0 < hrow.Import (out ! i) \<longrightarrow>
                 (hrow.Wind (example_hframe ! i) + Heat (example_hframe ! i) + Water (out ! i))
                   - Consumption (example_hframe ! i) \<le> 0) \<and>
              (0 < hrow.Export (out ! i) \<longrightarrow>
                 0 < (hrow.Wind (example_hframe ! i) + Heat (example_hframe ! i) + Water (out ! i))
                   - Consumption (example_hframe ! i)))) \<and>
    (\<exists>out H' L'. balance_wind wind_config 0 0 example_hframe = Inr (out, H', L') \<and>
        length out = length example_hframe \<and>
           (\<forall>i. 1 \<le> i \<and> i < length example_hframe \<longrightarrow>
              \<not> (0 < hrow.Import (out ! i) \<and> 0 < hrow.Export (out ! i)) \<and>
              (0 < hrow.Import (out ! i) \<longrightarrow>
                 hrow.Wind (example_hframe ! i) + Heat (example_hframe ! i) + Water (out ! i)
                   - Consumption (example_hframe ! i) < 0) \<and>
              (0 < hrow.Export (out ! i) \<longrightarrow>
                 0 \<le> hrow.Wind (example_hframe ! i) + Heat (example_hframe ! i) + Water (out ! i)
                   - Consumption (example_hframe ! i)))))"
proof -
  have ne: "example_hframe \<noteq> []" by (simp add: example_hframe_def)
  have e: "rtp_eff wind_config \<noteq> 0" by (simp add: wind_config_def)
  show ?thesis
    by (intro conjI ne e import_export_exclusive [OF ne e, THEN conjunct1]
          import_export_exclusive [OF ne e, THEN conjunct2])
qed

subsection \<open>Hydro, import and export in the reservoir scripts\<close>

lemma SPB_hour_bounds:
  fixes P :: "'g prng"
  assumes df: "1 \<le> i" "i < length df"
    and c: "0 \<le> impl c" "2 \<le> store0 c" and inf: "\<forall>r\<in>set df. 2 \<le> Inflow r"
  defines "out \<equiv> rows_reservoir hour_SPB P c df"
  shows "0 \<le> Waout (out ! i)" "Waout (out ! i) \<le> Store (out ! (i - 1))"
    "rrow.Import (out ! i) \<le> impl c"
    "0 \<le> wlim c \<Longrightarrow> 0 \<le> rrow.Import (out ! i)"
    "2 \<le> wlim c \<Longrightarrow> Waout (out ! i) \<le> wlim c"
    "0 \<le> expl c \<Longrightarrow> 0 \<le> rrow.Export (out ! i) \<and> rrow.Export (out ! i) \<le> expl c"
proof -
  obtain ema u water imp exp' ema' where
    h: "hour_SPB c (rrow.Wind (df ! i)) (Tout (df ! i)) (Nuclear (df ! i))
          (Store (out ! (i - 1))) ema u = (water, imp, exp', ema')"
    and r: "Waout (out ! i) = water" "rrow.Import (out ! i) = imp" "rrow.Export (out ! i) = exp'"
    unfolding out_def by (rule rows_reservoir_hour [OF df, of hour_SPB c P])
  have s: "2 \<le> Store (out ! (i - 1))"
    unfolding out_def using SPB_store_ge2 [OF c inf, of "i - 1" P] df by simp
  then have s0: "0 \<le> Store (out ! (i - 1))" by simp
  show "0 \<le> Waout (out ! i)" "rrow.Import (out ! i) \<le> impl c"
    unfolding r using hour_SPB_bounds(1,2) [OF h] by simp_all
  show "Waout (out ! i) \<le> Store (out ! (i - 1))"
    unfolding r using hour_SPB_bounds(3) [OF h s c(1)] .
  show "0 \<le> rrow.Import (out ! i)" if "0 \<le> wlim c"
    unfolding r using hour_SPB_bounds(4) [OF h s0 c(1) that] .
  show "Waout (out ! i) \<le> wlim c" if "2 \<le> wlim c"
    unfolding r using hour_SPB_bounds(5) [OF h s0 c(1) that] .
  show "0 \<le> rrow.Export (out ! i) \<and> rrow.Export (out ! i) \<le> expl c" if "0 \<le> expl c"
    unfolding r using hour_SPB_bounds(6) [OF h that] .
qed

lemma SE300_hour_bounds:
  fixes P :: "'g prng"
  assumes df: "1 \<le> i" "i < length df"
    and c: "0 \<le> impl c" "2 \<le> store0 c" and inf: "\<forall>r\<in>set df. 2 \<le> Inflow r"
  defines "out \<equiv> rows_reservoir hour_SE300 P c df"
  shows "2 \<le> Waout (out ! i)" "Waout (out ! i) \<le> Store (out ! (i - 1))"
    "rrow.Import (out ! i) \<le> impl c"
    "2 \<le> wlim c \<Longrightarrow> 0 \<le> rrow.Import (out ! i)"
    "2 \<le> wlim c \<Longrightarrow> Waout (out ! i) \<le> wlim c"
    "0 \<le> expl c \<Longrightarrow> 0 \<le> rrow.Export (out ! i) \<and> rrow.Export (out ! i) \<le> expl c"
proof -
  obtain ema u water imp exp' ema' where
    h: "hour_SE300 c (rrow.Wind (df ! i)) (Tout (df ! i)) (Nuclear (df ! i))
          (Store (out ! (i - 1))) ema u = (water, imp, exp', ema')"
    and r: "Waout (out ! i) = water" "rrow.Import (out ! i) = imp" "rrow.Export (out ! i) = exp'"
    unfolding out_def by (rule rows_reservoir_hour [OF df, of hour_SE300 c P])
  have s: "2 \<le> Store (out ! (i - 1))"
    unfolding out_def using SE300_store_ge2 [OF c inf, of "i - 1" P] df by simp
  show "2 \<le> Waout (out ! i)" "rrow.Import (out ! i) \<le> impl c"
    unfolding r using hour_SE300_bounds(1,2) [OF h] by simp_all
  show "Waout (out ! i) \<le> Store (out ! (i - 1))"
    unfolding r using hour_SE300_bounds(3) [OF h s c(1)] .
  show "0 \<le> rrow.Import (out ! i)" if "2 \<le> wlim c"
    unfolding r using hour_SE300_bounds(4) [OF h s c(1) that] .
  show "Waout (out ! i) \<le> wlim c" if "2 \<le> wlim c"
    unfolding r using hour_SE300_bounds(5) [OF h s c(1) that] .
  show "0 \<le> rrow.Export (out ! i) \<and> rrow.Export (out ! i) \<le> expl c" if "0 \<le> expl c"
    unfolding r using hour_SE300_bounds(6) [OF h that] .
qed

text \<open>
  The hydro power written, on the inflow column of \<open>inflow()\<close>: in SE300wind.py it lies in
  \<open>[2, wlim]\<close> and does not exceed the previous reservoir level; in SwedenPowerBalance.py
  it lies in \<open>[0, wlim]\<close> and does not exceed the previous reservoir level.
\<close>

lemma SE300_hydro_within_limits:
  assumes "1 \<le> i" "i < length df" "0 \<le> impl c" "2 \<le> wlim c" "2 \<le> store0 c"
  shows "2 \<le> Waout (rows_reservoir hour_SE300 P c (inflow df) ! i)"
    "Waout (rows_reservoir hour_SE300 P c (inflow df) ! i) \<le> wlim c"
    "Waout (rows_reservoir hour_SE300 P c (inflow df) ! i)
       \<le> Store (rows_reservoir hour_SE300 P c (inflow df) ! (i - 1))"
  using SE300_hour_bounds(1,2,5) [of i "inflow df" c P] assms inflow_ge2 [of df]
  by (simp_all add: inflow_length)

lemma SPB_hydro_within_limits:
  assumes "1 \<le> i" "i < length df" "0 \<le> impl c" "2 \<le> wlim c" "2 \<le> store0 c"
  shows "0 \<le> Waout (rows_reservoir hour_SPB P c (inflow df) ! i)"
    "Waout (rows_reservoir hour_SPB P c (inflow df) ! i) \<le> wlim c"
    "Waout (rows_reservoir hour_SPB P c (inflow df) ! i)
       \<le> Store (rows_reservoir hour_SPB P c (inflow df) ! (i - 1))"
  using SPB_hour_bounds(1,2,5) [of i "inflow df" c P] assms inflow_ge2 [of df]
  by (simp_all add: inflow_length)

lemma SPB_import_export:
  assumes ne: "df \<noteq> []"
    and c: "0 \<le> impl c" "0 \<le> expl c" "0 \<le> wlim c" "2 \<le> store0 c"
    and inf: "\<forall>r\<in>set df. 2 \<le> Inflow r"
  shows "\<exists>out g'. balance_SPB P c g df = Inr (out, g') \<and> length out = length df \<and>
           (\<forall>i. i < length df \<longrightarrow>
              0 \<le> rrow.Import (out ! i) \<and> rrow.Import (out ! i) \<le> impl c \<and>
              0 \<le> rrow.Export (out ! i) \<and> rrow.Export (out ! i) \<le> expl c)"
proof -
  let ?out = "rows_reservoir hour_SPB P c df"
  obtain g' where b: "balance_SPB P c g df = Inr (?out, g')"
    unfolding balance_SPB_def using balance_reservoir_Inr [OF ne, of hour_SPB P c g] by blast
  have l: "length ?out = length df" by (rule rows_reservoir_length)
  have "\<forall>i. i < length df \<longrightarrow>
              0 \<le> rrow.Import (?out ! i) \<and> rrow.Import (?out ! i) \<le> impl c \<and>
              0 \<le> rrow.Export (?out ! i) \<and> rrow.Export (?out ! i) \<le> expl c"
  proof (intro allI impI)
    fix i assume i: "i < length df"
    show "0 \<le> rrow.Import (?out ! i) \<and> rrow.Import (?out ! i) \<le> impl c \<and>
              0 \<le> rrow.Export (?out ! i) \<and> rrow.Export (?out ! i) \<le> expl c"
    proof (cases "i = 0")
      case True
      then show ?thesis using rows_reservoir_row0_fields(3,4) [OF ne, of hour_SPB P c] c by simp
    next
      case False
      then have "1 \<le> i" by simp
      from SPB_hour_bounds(3,4,6) [OF this i c(1,4) inf, of P] c show ?thesis by simp
    qed
  qed
  with b l show ?thesis by blast
qed

lemma SE300_import_export:
  assumes ne: "df \<noteq> []"
    and c: "0 \<le> impl c" "0 \<le> expl c" "2 \<le> wlim c" "2 \<le> store0 c"
    and inf: "\<forall>r\<in>set df. 2 \<le> Inflow r"
  shows "\<exists>out g'. balance_SE300 P c g df = Inr (out, g') \<and> length out = length df \<and>
           (\<forall>i. i < length df \<longrightarrow>
              0 \<le> rrow.Import (out ! i) \<and> rrow.Import (out ! i) \<le> impl c \<and>
              0 \<le> rrow.Export (out ! i) \<and> rrow.Export (out ! i) \<le> expl c)"
proof -
  let ?out = "rows_reservoir hour_SE300 P c df"
  obtain g' where b: "balance_SE300 P c g df = Inr (?out, g')"
    unfolding balance_SE300_def using balance_reservoir_Inr [OF ne, of hour_SE300 P c g] by blast
  have l: "length ?out = length df" by (rule rows_reservoir_length)
  have "\<forall>i. i < length df \<longrightarrow>
              0 \<le> rrow.Import (?out ! i) \<and> rrow.Import (?out ! i) \<le> impl c \<and>
              0 \<le> rrow.Export (?out ! i) \<and> rrow.Export (?out ! i) \<le> expl c"
  proof (intro allI impI)
    fix i assume i: "i < length df"
    show "0 \<le> rrow.Import (?out ! i) \<and> rrow.Import (?out ! i) \<le> impl c \<and>
              0 \<le> rrow.Export (?out ! i) \<and> rrow.Export (?out ! i) \<le> expl c"
    proof (cases "i = 0")
      case True
      then show ?thesis using rows_reservoir_row0_fields(3,4) [OF ne, of hour_SE300 P c] c by simp
    next
      case False
      then have "1 \<le> i" by simp
      from SE300_hour_bounds(3,4,6) [OF this i c(1,4) inf, of P] c show ?thesis by simp
    qed
  qed
  with b l show ?thesis by blast
qed

lemma nuclear_import_export:
  assumes ne: "df \<noteq> []" and c: "0 \<le> impl c" "0 \<le> expl c"
  shows "\<exists>out H' L'. balance_nuclear c H L df = Inr (out, H', L') \<and> length out = length df \<and>
           (\<forall>i. i < length df \<longrightarrow>
              0 \<le> hrow.Import (out ! i) \<and> hrow.Import (out ! i) \<le> impl c \<and>
              0 \<le> hrow.Export (out ! i) \<and> hrow.Export (out ! i) \<le> expl c)"
proof -
  let ?r = "fold (step_nuclear c) [1..<length df] (init_nuclear c df, H, L)"
  let ?out = "fst ?r"
  have b: "balance_nuclear c H L df = Inr (?out, fst (snd ?r), snd (snd ?r))"
    using balance_nuclear_Inr [OF ne, of c H L] by simp
  have l: "length ?out = length df" by (rule nuclear_length)
  have "\<forall>i. i < length df \<longrightarrow>
              0 \<le> hrow.Import (?out ! i) \<and> hrow.Import (?out ! i) \<le> impl c \<and>
              0 \<le> hrow.Export (?out ! i) \<and> hrow.Export (?out ! i) \<le> expl c"
  proof (intro allI impI)
    fix i assume i: "i < length df"
    show "0 \<le> hrow.Import (?out ! i) \<and> hrow.Import (?out ! i) \<le> impl c \<and>
              0 \<le> hrow.Export (?out ! i) \<and> hrow.Export (?out ! i) \<le> expl c"
    proof (cases "i = 0")
      case True
      show ?thesis unfolding True nuclear_row0 using init_nuclear_row0 [OF ne, of c] c by simp
    next
      case False
      then have i1: "1 \<le> i" by simp
      obtain water imp exp' eload flex where
        h: "hour_nuclear c (hrow.Wind (df ! i)) (Consumption (df ! i)) (Heat (df ! i))
              = (water, imp, exp', eload, flex)"
        by (metis prod_cases5)
      have r: "hrow.Import (?out ! i) = imp" "hrow.Export (?out ! i) = exp'"
        using nuclear_rows(2,3) [OF i1 i h refl, of H L] by simp_all
      show ?thesis
        unfolding r using hour_nuclear_bounds(1,2) [OF h] c by simp
    qed
  qed
  with b l show ?thesis by blast
qed

lemma wind_import_export:
  assumes ne: "df \<noteq> []" and c: "0 \<le> impl c" "0 \<le> expl c" and e: "rtp_eff c \<noteq> 0"
  shows "\<exists>out H' L'. balance_wind c H L df = Inr (out, H', L') \<and> length out = length df \<and>
           (\<forall>i. i < length df \<longrightarrow>
              0 \<le> hrow.Import (out ! i) \<and> hrow.Import (out ! i) \<le> impl c \<and>
              0 \<le> hrow.Export (out ! i) \<and> hrow.Export (out ! i) \<le> expl c)"
proof -
  let ?r = "fold (\<lambda>i s. projr (step_wind c i s)) [1..<length df] (init_wind df, H, L)"
  let ?out = "fst ?r"
  have b: "balance_wind c H L df = Inr (?out, fst (snd ?r), snd (snd ?r))"
    using balance_wind_Inr [OF e ne, of H L] by simp
  have l: "length ?out = length df" by (rule wind_length [OF e])
  have "\<forall>i. i < length df \<longrightarrow>
              0 \<le> hrow.Import (?out ! i) \<and> hrow.Import (?out ! i) \<le> impl c \<and>
              0 \<le> hrow.Export (?out ! i) \<and> hrow.Export (?out ! i) \<le> expl c"
  proof (intro allI impI)
    fix i assume i: "i < length df"
    show "0 \<le> hrow.Import (?out ! i) \<and> hrow.Import (?out ! i) \<le> impl c \<and>
              0 \<le> hrow.Export (?out ! i) \<and> hrow.Export (?out ! i) \<le> expl c"
    proof (cases "i = 0")
      case True
      show ?thesis unfolding True wind_row0 [OF e] using init_wind_row0 [OF ne] c by simp
    next
      case False
      then have i1: "1 \<le> i" by simp
      obtain water imp exp' eload flex def_store where
        h: "hour_wind c (hrow.Wind (df ! i) + Heat (df ! i)) (Consumption (df ! i))
              = (water, imp, exp', eload, flex, def_store)"
        by (metis prod_cases6)
      have r: "hrow.Import (?out ! i) = imp" "hrow.Export (?out ! i) = exp'"
        using wind_rows(2,3) [OF e i1 i h refl, of H L] by simp_all
      show ?thesis
        unfolding r using hour_wind_bounds(1,2) [OF h] c by simp
    qed
  qed
  with b l show ?thesis by blast
qed

text \<open>
  C4. In every script and every hour, row 0 included, import lies in \<open>[0, impl]\<close> and
  export in \<open>[0, expl]\<close>, for non-negative capacities. The reservoir scripts are run on
  the inflow column that \<open>inflow()\<close> computes, with a hydro maximum and a starting
  reservoir level of at least 2; SvK_EF_wind.py with a non-zero efficiency.
\<close>

theorem import_export_within_capacity:
  assumes "dfr \<noteq> []" and "0 \<le> impl c" and "0 \<le> expl c" and "2 \<le> wlim c" and "2 \<le> store0 c"
    and "dfh \<noteq> []" and "0 \<le> impl cn" and "0 \<le> expl cn"
    and "0 \<le> impl cw" and "0 \<le> expl cw" and "rtp_eff cw \<noteq> 0"
  shows "(\<exists>out g'. balance_SPB P c g (inflow dfr) = Inr (out, g') \<and> length out = length dfr \<and>
           (\<forall>i. i < length dfr \<longrightarrow>
              0 \<le> rrow.Import (out ! i) \<and> rrow.Import (out ! i) \<le> impl c \<and>
              0 \<le> rrow.Export (out ! i) \<and> rrow.Export (out ! i) \<le> expl c)) \<and>
         (\<exists>out g'. balance_SE300 P c g (inflow dfr) = Inr (out, g') \<and> length out = length dfr \<and>
           (\<forall>i. i < length dfr \<longrightarrow>
              0 \<le> rrow.Import (out ! i) \<and> rrow.Import (out ! i) \<le> impl c \<and>
              0 \<le> rrow.Export (out ! i) \<and> rrow.Export (out ! i) \<le> expl c)) \<and>
         (\<exists>out H' L'. balance_nuclear cn H L dfh = Inr (out, H', L') \<and> length out = length dfh \<and>
           (\<forall>i. i < length dfh \<longrightarrow>
              0 \<le> hrow.Import (out ! i) \<and> hrow.Import (out ! i) \<le> impl cn \<and>
              0 \<le> hrow.Export (out ! i) \<and> hrow.Export (out ! i) \<le> expl cn)) \<and>
         (\<exists>out H' L'. balance_wind cw H L dfh = Inr (out, H', L') \<and> length out = length dfh \<and>
           (\<forall>i. i < length dfh \<longrightarrow>
              0 \<le> hrow.Import (out ! i) \<and> hrow.Import (out ! i) \<le> impl cw \<and>
              0 \<le> hrow.Export (out ! i) \<and> hrow.Export (out ! i) \<le> expl cw))"
proof -
  have ne: "inflow dfr \<noteq> []" using assms(1) by (rule inflow_nonempty)
  have w0: "0 \<le> wlim c" using assms(4) by simp
  have a: "\<exists>out g'. balance_SPB P c g (inflow dfr) = Inr (out, g') \<and> length out = length dfr \<and>
           (\<forall>i. i < length dfr \<longrightarrow>
              0 \<le> rrow.Import (out ! i) \<and> rrow.Import (out ! i) \<le> impl c \<and>
              0 \<le> rrow.Export (out ! i) \<and> rrow.Export (out ! i) \<le> expl c)"
    using SPB_import_export [OF ne assms(2,3) w0 assms(5) inflow_ge2, of P g]
    by (simp add: inflow_length)
  have b: "\<exists>out g'. balance_SE300 P c g (inflow dfr) = Inr (out, g') \<and> length out = length dfr \<and>
           (\<forall>i. i < length dfr \<longrightarrow>
              0 \<le> rrow.Import (out ! i) \<and> rrow.Import (out ! i) \<le> impl c \<and>
              0 \<le> rrow.Export (out ! i) \<and> rrow.Export (out ! i) \<le> expl c)"
    using SE300_import_export [OF ne assms(2,3,4,5) inflow_ge2, of P g]
    by (simp add: inflow_length)
  show ?thesis
    by (intro conjI a b nuclear_import_export [OF assms(6,7,8)]
          wind_import_export [OF assms(6,9,10,11)])
qed

theorem import_export_within_capacity_witness:
  "example_frame \<noteq> [] \<and> 0 \<le> impl SPB_config \<and> 0 \<le> expl SPB_config \<and> 2 \<le> wlim SPB_config \<and>
   2 \<le> store0 SPB_config \<and> example_hframe \<noteq> [] \<and> 0 \<le> impl nuclear_config \<and>
   0 \<le> expl nuclear_config \<and> 0 \<le> impl wind_config \<and> 0 \<le> expl wind_config \<and>
   rtp_eff wind_config \<noteq> 0 \<and>
   ((\<exists>out g'. balance_SPB (replay [0.6229016948897019, 0.7417869892607294]) SPB_config []
                 (inflow example_frame) = Inr (out, g') \<and> length out = length example_frame \<and>
           (\<forall>i. i < length example_frame \<longrightarrow>
              0 \<le> rrow.Import (out ! i) \<and> rrow.Import (out ! i) \<le> impl SPB_config \<and>
              0 \<le> rrow.Export (out ! i) \<and> rrow.Export (out ! i) \<le> expl SPB_config)) \<and>
    (\<exists>out g'. balance_SE300 (replay [0.6229016948897019, 0.7417869892607294]) SPB_config []
                 (inflow example_frame) = Inr (out, g') \<and> length out = length example_frame \<and>
           (\<forall>i. i < length example_frame \<longrightarrow>
              0 \<le> rrow.Import (out ! i) \<and> rrow.Import (out ! i) \<le> impl SPB_config \<and>
              0 \<le> rrow.Export (out ! i) \<and> rrow.Export (out ! i) \<le> expl SPB_config)) \<and>
    (\<exists>out H' L'. balance_nuclear nuclear_config 0 0 example_hframe = Inr (out, H', L') \<and>
        length out = length example_hframe \<and>
           (\<forall>i. i < length example_hframe \<longrightarrow>
              0 \<le> hrow.Import (out ! i) \<and> hrow.Import (out ! i) \<le> impl nuclear_config \<and>
              0 \<le> hrow.Export (out ! i) \<and> hrow.Export (out ! i) \<le> expl nuclear_config)) \<and>
    (\<exists>out H' L'. balance_wind wind_config 0 0 example_hframe = Inr (out, H', L') \<and>
        length out = length example_hframe \<and>
           (\<forall>i. i < length example_hframe \<longrightarrow>
              0 \<le> hrow.Import (out ! i) \<and> hrow.Import (out ! i) \<le> impl wind_config \<and>
              0 \<le> hrow.Export (out ! i) \<and> hrow.Export (out ! i) \<le> expl wind_config)))"
proof -
  have h: "example_frame \<noteq> []" "0 \<le> impl SPB_config" "0 \<le> expl SPB_config"
    "2 \<le> wlim SPB_config" "2 \<le> store0 SPB_config" "example_hframe \<noteq> []"
    "0 \<le> impl nuclear_config" "0 \<le> expl nuclear_config" "0 \<le> impl wind_config"
    "0 \<le> expl wind_config" "rtp_eff wind_config \<noteq> 0"
    by (simp_all add: example_frame_def example_hframe_def SPB_config_def nuclear_config_def
        wind_config_def)
  note t = import_export_within_capacity [OF h]
  show ?thesis
    by (intro conjI h t [THEN conjunct1] t [THEN conjunct2, THEN conjunct1]
          t [THEN conjunct2, THEN conjunct2, THEN conjunct1]
          t [THEN conjunct2, THEN conjunct2, THEN conjunct2])
qed

subsection \<open>The deficit store of SvK_EF_wind.py\<close>

lemma wind_dStore:
  assumes ne: "df \<noteq> []" and e: "e \<noteq> 0"
  shows "\<exists>out H' L'. balance_wind (c\<lparr>rtp_eff := e\<rparr>) H L df = Inr (out, H', L') \<and>
           length out = length df \<and>
           (\<forall>i. 1 \<le> i \<and> i < length df \<longrightarrow>
             (case hour_wind c (hrow.Wind (df ! i) + Heat (df ! i)) (Consumption (df ! i)) of
                (water, imp, exp', eload, flex, def_store) \<Rightarrow>
                  dStore (out ! i) =
                    dStore (out ! (i - 1)) + (if def_store < 0 then def_store / e else def_store)))"
proof -
  let ?c = "c\<lparr>rtp_eff := e\<rparr>"
  have e': "rtp_eff ?c \<noteq> 0" using e by simp
  let ?r = "fold (\<lambda>i s. projr (step_wind ?c i s)) [1..<length df] (init_wind df, H, L)"
  let ?out = "fst ?r"
  have b: "balance_wind ?c H L df = Inr (?out, fst (snd ?r), snd (snd ?r))"
    using balance_wind_Inr [OF e' ne, of H L] by simp
  have l: "length ?out = length df" by (rule wind_length [OF e'])
  have "\<forall>i. 1 \<le> i \<and> i < length df \<longrightarrow>
             (case hour_wind c (hrow.Wind (df ! i) + Heat (df ! i)) (Consumption (df ! i)) of
                (water, imp, exp', eload, flex, def_store) \<Rightarrow>
                  dStore (?out ! i) =
                    dStore (?out ! (i - 1)) + (if def_store < 0 then def_store / e else def_store))"
  proof (intro allI impI)
    fix i assume i: "1 \<le> i \<and> i < length df"
    obtain water imp exp' eload flex def_store where
      h: "hour_wind c (hrow.Wind (df ! i) + Heat (df ! i)) (Consumption (df ! i))
            = (water, imp, exp', eload, flex, def_store)"
      by (metis prod_cases6)
    then have h': "hour_wind ?c (hrow.Wind (df ! i) + Heat (df ! i)) (Consumption (df ! i))
            = (water, imp, exp', eload, flex, def_store)"
      by (simp only: hour_wind_rtp_eff)
    have "dStore (?out ! i) =
            dStore (?out ! (i - 1)) + (if def_store < 0 then def_store / rtp_eff ?c else def_store)"
      using wind_rows(7) [OF e' _ _ h' refl, of H L] i by blast
    then show "case hour_wind c (hrow.Wind (df ! i) + Heat (df ! i)) (Consumption (df ! i)) of
                (water, imp, exp', eload, flex, def_store) \<Rightarrow>
                  dStore (?out ! i) =
                    dStore (?out ! (i - 1)) + (if def_store < 0 then def_store / e else def_store)"
      unfolding h by simp
  qed
  with b l show ?thesis by blast
qed

text \<open>
  On the example hours of SvK_EF_wind.py, with efficiency 0.4 and with efficiency 0.8:
  hour 1 takes 6 from the deficit store, booked as 15 and as 7.5; hour 2 adds 0.73 in
  both runs.
\<close>

lemma example_dStore:
  "map dStore (rows_of (map_sum id fst (balance_wind wind_config 0 0 example_wind_frame)))
     = [0, - 15, - 14.27]"
  "map dStore (rows_of (map_sum id fst
       (balance_wind (wind_config\<lparr>rtp_eff := 0.8\<rparr>) 0 0 example_wind_frame)))
     = [0, - 7.5, - 6.77]"
  by code_simp+

text \<open>
  C3. In SvK_EF_wind.py the flow \<open>def_store\<close> of an hour does not depend on the
  efficiency; it is divided by the efficiency if and only if it is negative, and added to
  \<open>dStore\<close> unchanged otherwise. So two runs that differ only in the efficiency add the
  same amount to \<open>dStore\<close> in every hour whose flow is not negative.
\<close>

theorem deficit_store_efficiency:
  assumes "df \<noteq> []" and "e1 \<noteq> 0" and "e2 \<noteq> 0"
  shows "(\<exists>out H' L'. balance_wind (c\<lparr>rtp_eff := e1\<rparr>) H L df = Inr (out, H', L') \<and>
           length out = length df \<and>
           (\<forall>i. 1 \<le> i \<and> i < length df \<longrightarrow>
             (case hour_wind c (hrow.Wind (df ! i) + Heat (df ! i)) (Consumption (df ! i)) of
                (water, imp, exp', eload, flex, def_store) \<Rightarrow>
                  dStore (out ! i) =
                    dStore (out ! (i - 1)) + (if def_store < 0 then def_store / e1 else def_store)))) \<and>
         (\<exists>out H' L'. balance_wind (c\<lparr>rtp_eff := e2\<rparr>) H L df = Inr (out, H', L') \<and>
           length out = length df \<and>
           (\<forall>i. 1 \<le> i \<and> i < length df \<longrightarrow>
             (case hour_wind c (hrow.Wind (df ! i) + Heat (df ! i)) (Consumption (df ! i)) of
                (water, imp, exp', eload, flex, def_store) \<Rightarrow>
                  dStore (out ! i) =
                    dStore (out ! (i - 1)) + (if def_store < 0 then def_store / e2 else def_store))))"
  by (rule conjI [OF wind_dStore [OF assms(1,2)] wind_dStore [OF assms(1,3)]])

theorem deficit_store_efficiency_witness:
  "example_wind_frame \<noteq> [] \<and> (0.4::real) \<noteq> 0 \<and> (0.8::real) \<noteq> 0 \<and>
   ((\<exists>out H' L'. balance_wind (wind_config\<lparr>rtp_eff := 0.4\<rparr>) 0 0 example_wind_frame
        = Inr (out, H', L') \<and> length out = length example_wind_frame \<and>
           (\<forall>i. 1 \<le> i \<and> i < length example_wind_frame \<longrightarrow>
             (case hour_wind wind_config (hrow.Wind (example_wind_frame ! i) + Heat (example_wind_frame ! i))
                     (Consumption (example_wind_frame ! i)) of
                (water, imp, exp', eload, flex, def_store) \<Rightarrow>
                  dStore (out ! i) =
                    dStore (out ! (i - 1)) + (if def_store < 0 then def_store / 0.4 else def_store)))) \<and>
    (\<exists>out H' L'. balance_wind (wind_config\<lparr>rtp_eff := 0.8\<rparr>) 0 0 example_wind_frame
        = Inr (out, H', L') \<and> length out = length example_wind_frame \<and>
           (\<forall>i. 1 \<le> i \<and> i < length example_wind_frame \<longrightarrow>
             (case hour_wind wind_config (hrow.Wind (example_wind_frame ! i) + Heat (example_wind_frame ! i))
                     (Consumption (example_wind_frame ! i)) of
                (water, imp, exp', eload, flex, def_store) \<Rightarrow>
                  dStore (out ! i) =
                    dStore (out ! (i - 1)) + (if def_store < 0 then def_store / 0.8 else def_store)))))"
proof -
  have ne: "example_wind_frame \<noteq> []" by (simp add: example_wind_frame_def)
  have a: "(0.4::real) \<noteq> 0" and b: "(0.8::real) \<noteq> 0" by simp_all
  note t = deficit_store_efficiency [OF ne a b]
  show ?thesis
    by (intro conjI ne a b t [THEN conjunct1] t [THEN conjunct2])
qed

subsection \<open>What a step of the loop writes\<close>

lemma step_wind_Inr_frame:
  assumes "step_wind c i s = Inr s'" and "j \<noteq> i"
  shows "fst s' ! j = fst s ! j"
  using assms
  by (cases s rule: prod_cases3)
    (auto simp: step_wind_def Let_def split: prod.splits sum.splits)

lemma step_wind_Inr_row:
  assumes "step_wind c i s = Inr s'" and "i < length (fst s)"
    and "hour_wind c (hrow.Wind (fst s ! i) + Heat (fst s ! i)) (Consumption (fst s ! i))
           = (water, imp, exp', eload, flex, def_store)"
  shows "hrow.Wind (fst s' ! i) = hrow.Wind (fst s ! i)" "Heat (fst s' ! i) = Heat (fst s ! i)"
    "Consumption (fst s' ! i) = Consumption (fst s ! i) + (eload - flex)"
  using assms
  by (cases s rule: prod_cases3; auto simp: step_wind_def Let_def split: sum.splits)+

lemma step_reservoir_exogenous:
  assumes "i < length (fst s)"
  shows "rrow.Wind (fst (step_reservoir hour P c i s) ! i) = rrow.Wind (fst s ! i)"
    "Tout (fst (step_reservoir hour P c i s) ! i) = Tout (fst s ! i)"
    "Nuclear (fst (step_reservoir hour P c i s) ! i) = Nuclear (fst s ! i)"
    "Inflow (fst (step_reservoir hour P c i s) ! i) = Inflow (fst s ! i)"
proof -
  obtain ema u where row: "fst (step_reservoir hour P c i s) ! i =
           new_row (Store (fst s ! (i - 1))) (fst s ! i)
             (hour c (rrow.Wind (fst s ! i)) (Tout (fst s ! i)) (Nuclear (fst s ! i))
                (Store (fst s ! (i - 1))) ema u)"
    using step_reservoir_row [OF assms, of hour P c] by blast
  obtain water imp exp' ema' where h:
    "hour c (rrow.Wind (fst s ! i)) (Tout (fst s ! i)) (Nuclear (fst s ! i))
                (Store (fst s ! (i - 1))) ema u = (water, imp, exp', ema')"
    by (metis prod_cases4)
  show "rrow.Wind (fst (step_reservoir hour P c i s) ! i) = rrow.Wind (fst s ! i)"
    "Tout (fst (step_reservoir hour P c i s) ! i) = Tout (fst s ! i)"
    "Nuclear (fst (step_reservoir hour P c i s) ! i) = Nuclear (fst s ! i)"
    "Inflow (fst (step_reservoir hour P c i s) ! i) = Inflow (fst s ! i)"
    unfolding row h by (simp_all add: new_row_fields)
qed

lemma example_nuclear_consumption:
  "map Consumption (rows_of (map_sum id fst (balance_nuclear nuclear_config 0 0 example_hframe)))
     = [33, 32.5, 30]"
  by code_simp

text \<open>
  C7, as stated, fails: SvK_EF_nuclear.py changes the demand column. On the example, hour
  1 has demand 35 before the loop and 32.5 after it (the electrolysers shed 2.5).
\<close>

theorem demand_rewritten_counterexample:
  "map Consumption example_hframe = [33, 35, 30] \<and>
   map Consumption (rows_of (map_sum id fst (balance_nuclear nuclear_config 0 0 example_hframe)))
     = [33, 32.5, 30] \<and>
   map Consumption (rows_of (map_sum id fst (balance_nuclear nuclear_config 0 0 example_hframe)))
     \<noteq> map Consumption example_hframe"
  unfolding example_nuclear_consumption by (simp add: example_hframe_def)

text \<open>
  C7, amended. A step of the loop writes row \<open>i\<close> only: every other row \<open>j\<close> stays as
  it is, so no entry of another hour is revisited. In row \<open>i\<close> wind and baseload are not
  changed, nor are demand and inflow in the reservoir scripts. In the hydrogen scripts
  the step does change the demand of hour \<open>i\<close>, to
  \<open>Consumption i + eload - flex\<close>.
\<close>

theorem step_writes_one_row:
  assumes "i < length (fst s)" and "i < length (fst sr)" and "rtp_eff cw \<noteq> 0" and "j \<noteq> i"
  shows "(fst (step_nuclear cn i s) ! j = fst s ! j \<and>
          hrow.Wind (fst (step_nuclear cn i s) ! i) = hrow.Wind (fst s ! i) \<and>
          Heat (fst (step_nuclear cn i s) ! i) = Heat (fst s ! i) \<and>
          (case hour_nuclear cn (hrow.Wind (fst s ! i)) (Consumption (fst s ! i))
                  (Heat (fst s ! i)) of
             (water, imp, exp', eload, flex) \<Rightarrow>
               Consumption (fst (step_nuclear cn i s) ! i)
                 = Consumption (fst s ! i) + (eload - flex))) \<and>
         (\<exists>s'. step_wind cw i s = Inr s' \<and>
            fst s' ! j = fst s ! j \<and>
            hrow.Wind (fst s' ! i) = hrow.Wind (fst s ! i) \<and>
            Heat (fst s' ! i) = Heat (fst s ! i) \<and>
            (case hour_wind cw (hrow.Wind (fst s ! i) + Heat (fst s ! i))
                    (Consumption (fst s ! i)) of
               (water, imp, exp', eload, flex, def_store) \<Rightarrow>
                 Consumption (fst s' ! i) = Consumption (fst s ! i) + (eload - flex))) \<and>
         (fst (step_reservoir hour P cr i sr) ! j = fst sr ! j \<and>
          rrow.Wind (fst (step_reservoir hour P cr i sr) ! i) = rrow.Wind (fst sr ! i) \<and>
          Tout (fst (step_reservoir hour P cr i sr) ! i) = Tout (fst sr ! i) \<and>
          Nuclear (fst (step_reservoir hour P cr i sr) ! i) = Nuclear (fst sr ! i) \<and>
          Inflow (fst (step_reservoir hour P cr i sr) ! i) = Inflow (fst sr ! i))"
proof (intro conjI)
  have ij: "i \<noteq> j" using assms(4) by simp
  show "fst (step_nuclear cn i s) ! j = fst s ! j"
    by (rule step_nuclear_frame [OF ij])
  obtain water imp exp' eload flex where
    h: "hour_nuclear cn (hrow.Wind (fst s ! i)) (Consumption (fst s ! i)) (Heat (fst s ! i))
          = (water, imp, exp', eload, flex)"
    by (metis prod_cases5)
  show "hrow.Wind (fst (step_nuclear cn i s) ! i) = hrow.Wind (fst s ! i)"
    "Heat (fst (step_nuclear cn i s) ! i) = Heat (fst s ! i)"
    using step_nuclear_row(5,6) [OF assms(1) h] by simp_all
  show "case hour_nuclear cn (hrow.Wind (fst s ! i)) (Consumption (fst s ! i))
                  (Heat (fst s ! i)) of
             (water, imp, exp', eload, flex) \<Rightarrow>
               Consumption (fst (step_nuclear cn i s) ! i)
                 = Consumption (fst s ! i) + (eload - flex)"
    unfolding h using step_nuclear_row(4) [OF assms(1) h] by simp
  show "\<exists>s'. step_wind cw i s = Inr s' \<and>
            fst s' ! j = fst s ! j \<and>
            hrow.Wind (fst s' ! i) = hrow.Wind (fst s ! i) \<and>
            Heat (fst s' ! i) = Heat (fst s ! i) \<and>
            (case hour_wind cw (hrow.Wind (fst s ! i) + Heat (fst s ! i))
                    (Consumption (fst s ! i)) of
               (water, imp, exp', eload, flex, def_store) \<Rightarrow>
                 Consumption (fst s' ! i) = Consumption (fst s ! i) + (eload - flex))"
  proof -
    obtain s' where s': "step_wind cw i s = Inr s'"
      using step_wind_Inr [OF assms(3)] by blast
    obtain water imp exp' eload flex def_store where
      hw: "hour_wind cw (hrow.Wind (fst s ! i) + Heat (fst s ! i)) (Consumption (fst s ! i))
            = (water, imp, exp', eload, flex, def_store)"
      by (metis prod_cases6)
    have r: "fst s' ! j = fst s ! j \<and>
            hrow.Wind (fst s' ! i) = hrow.Wind (fst s ! i) \<and>
            Heat (fst s' ! i) = Heat (fst s ! i) \<and>
            (case hour_wind cw (hrow.Wind (fst s ! i) + Heat (fst s ! i))
                    (Consumption (fst s ! i)) of
               (water, imp, exp', eload, flex, def_store) \<Rightarrow>
                 Consumption (fst s' ! i) = Consumption (fst s ! i) + (eload - flex))"
      unfolding hw
      using step_wind_Inr_frame [OF s' assms(4)] step_wind_Inr_row [OF s' assms(1) hw] by simp
    show ?thesis by (rule exI [of _ s'], rule conjI [OF s' r])
  qed
  show "fst (step_reservoir hour P cr i sr) ! j = fst sr ! j"
    by (rule step_reservoir_frame [OF ij])
  show "rrow.Wind (fst (step_reservoir hour P cr i sr) ! i) = rrow.Wind (fst sr ! i)"
    "Tout (fst (step_reservoir hour P cr i sr) ! i) = Tout (fst sr ! i)"
    "Nuclear (fst (step_reservoir hour P cr i sr) ! i) = Nuclear (fst sr ! i)"
    "Inflow (fst (step_reservoir hour P cr i sr) ! i) = Inflow (fst sr ! i)"
    using step_reservoir_exogenous [OF assms(2), of hour P cr] by simp_all
qed

theorem step_writes_one_row_witness:
  "1 < length (fst (example_hframe, 0::real, 0::real)) \<and>
   1 < length (fst (example_frame, 1.1::real, [0.7417869892607294::real])) \<and>
   rtp_eff wind_config \<noteq> 0 \<and> (0::nat) \<noteq> 1 \<and>
   (fst (step_nuclear nuclear_config 1 (example_hframe, 0::real, 0::real)) ! 0 = fst
        (example_hframe, 0::real, 0::real) ! 0 \<and>
    hrow.Wind (fst (step_nuclear nuclear_config 1 (example_hframe, 0::real, 0::real)) ! 1) =
        hrow.Wind (fst (example_hframe, 0::real, 0::real) ! 1) \<and>
    Heat (fst (step_nuclear nuclear_config 1 (example_hframe, 0::real, 0::real)) ! 1) = Heat
        (fst (example_hframe, 0::real, 0::real) ! 1) \<and>
    (case hour_nuclear nuclear_config (hrow.Wind (fst (example_hframe, 0::real, 0::real) ! 1))
        (Consumption (fst (example_hframe, 0::real, 0::real) ! 1))
            (Heat (fst (example_hframe, 0::real, 0::real) ! 1)) of
       (water, imp, exp', eload, flex) \<Rightarrow>
         Consumption (fst (step_nuclear nuclear_config 1 (example_hframe, 0::real, 0::real)) !
        1)
           = Consumption (fst (example_hframe, 0::real, 0::real) ! 1) + (eload - flex))) \<and>
   (\<exists>s'. step_wind wind_config 1 (example_hframe, 0::real, 0::real) = Inr s' \<and>
      fst s' ! 0 = fst (example_hframe, 0::real, 0::real) ! 0 \<and>
      hrow.Wind (fst s' ! 1) = hrow.Wind (fst (example_hframe, 0::real, 0::real) ! 1) \<and>
      Heat (fst s' ! 1) = Heat (fst (example_hframe, 0::real, 0::real) ! 1) \<and>
      (case hour_wind wind_config (hrow.Wind (fst (example_hframe, 0::real, 0::real) ! 1) +
        Heat (fst (example_hframe, 0::real, 0::real) ! 1))
              (Consumption (fst (example_hframe, 0::real, 0::real) ! 1)) of
         (water, imp, exp', eload, flex, def_store) \<Rightarrow>
           Consumption (fst s' ! 1) = Consumption (fst (example_hframe, 0::real, 0::real) ! 1)
        + (eload - flex))) \<and>
   (fst (step_reservoir hour_SPB (replay [0.6229016948897019, 0.7417869892607294]) SPB_config 1
        (example_frame, 1.1::real, [0.7417869892607294::real])) ! 0 = fst (example_frame,
        1.1::real, [0.7417869892607294::real]) ! 0 \<and>
    rrow.Wind (fst (step_reservoir hour_SPB (replay [0.6229016948897019, 0.7417869892607294])
        SPB_config 1 (example_frame, 1.1::real, [0.7417869892607294::real])) ! 1) = rrow.Wind
        (fst (example_frame, 1.1::real, [0.7417869892607294::real]) ! 1) \<and>
    Tout (fst (step_reservoir hour_SPB (replay [0.6229016948897019, 0.7417869892607294])
        SPB_config 1 (example_frame, 1.1::real, [0.7417869892607294::real])) ! 1) = Tout (fst
        (example_frame, 1.1::real, [0.7417869892607294::real]) ! 1) \<and>
    Nuclear (fst (step_reservoir hour_SPB (replay [0.6229016948897019, 0.7417869892607294])
        SPB_config 1 (example_frame, 1.1::real, [0.7417869892607294::real])) ! 1) = Nuclear
        (fst (example_frame, 1.1::real, [0.7417869892607294::real]) ! 1) \<and>
    Inflow (fst (step_reservoir hour_SPB (replay [0.6229016948897019, 0.7417869892607294])
        SPB_config 1 (example_frame, 1.1::real, [0.7417869892607294::real])) ! 1) = Inflow (fst
        (example_frame, 1.1::real, [0.7417869892607294::real]) ! 1))"
proof -
  have a: "1 < length (fst (example_hframe, 0::real, 0::real))"
    by (simp add: example_hframe_def)
  have b: "1 < length (fst (example_frame, 1.1::real, [0.7417869892607294::real]))"
    by (simp add: example_frame_def)
  have e: "rtp_eff wind_config \<noteq> 0" by (simp add: wind_config_def)
  have j: "(0::nat) \<noteq> 1" by simp
  show ?thesis
    by (rule conjI [OF a conjI [OF b conjI [OF e conjI [OF j step_writes_one_row [OF a b e
        j]]]]])
qed

subsection \<open>Two runs\<close>

lemma new_row_more_fields:
  "rrow.Pnet (new_row ostore r (water, imp, exp', ema)) = rrow.Wind r + water + Nuclear r + imp"
  "Date (new_row ostore r (water, imp, exp', ema)) = Date r"
  "HoY (new_row ostore r (water, imp, exp', ema)) = HoY r"
  "rrow.Residual (new_row ostore r (water, imp, exp', ema)) = rrow.Residual r"
  "Hydrogen (new_row ostore r (water, imp, exp', ema)) = Hydrogen r"
  "rrow.eStore (new_row ostore r (water, imp, exp', ema)) = rrow.eStore r"
  by (simp_all add: new_row_def Let_def)

lemma step_reservoir_agree:
  assumes i: "i < length (fst s)" "i < length (fst t)"
    and st: "snd s = snd t"
    and exo: "exogenous (fst s ! i) = exogenous (fst t ! i)"
    and prev: "Store (fst s ! (i - 1)) = Store (fst t ! (i - 1))"
  shows "written (fst (step_reservoir hour P c i s) ! i)
           = written (fst (step_reservoir hour P c i t) ! i)"
    and "exogenous (fst (step_reservoir hour P c i s) ! i) = exogenous (fst s ! i)"
    and "snd (step_reservoir hour P c i s) = snd (step_reservoir hour P c i t)"
proof -
  obtain df ema g where s: "s = (df, ema, g)" by (cases s rule: prod_cases3)
  obtain df' where t: "t = (df', ema, g)" using st s by (cases t rule: prod_cases3) simp
  obtain u g' where r: "prng_random P g = (u, g')" by (cases "prng_random P g")
  have e: "rrow.Wind (df ! i) = rrow.Wind (df' ! i)" "Tout (df ! i) = Tout (df' ! i)"
    "Nuclear (df ! i) = Nuclear (df' ! i)" "Inflow (df ! i) = Inflow (df' ! i)"
    using exo by (simp_all add: exogenous_def s t)
  have p: "Store (df ! (i - 1)) = Store (df' ! (i - 1))" using prev by (simp add: s t)
  obtain water imp exp' ema' where h:
    "hour c (rrow.Wind (df' ! i)) (Tout (df' ! i)) (Nuclear (df' ! i))
       (Store (df' ! (i - 1))) ema u = (water, imp, exp', ema')"
    by (metis prod_cases4)
  have "step_reservoir hour P c i s =
      (df[i := new_row (Store (df ! (i - 1))) (df ! i)
                 (hour c (rrow.Wind (df ! i)) (Tout (df ! i)) (Nuclear (df ! i))
                    (Store (df ! (i - 1))) ema u)],
       snd (snd (snd (hour c (rrow.Wind (df ! i)) (Tout (df ! i)) (Nuclear (df ! i))
                    (Store (df ! (i - 1))) ema u))), g')"
    by (simp add: s r step_reservoir_def Let_def)
  then have S: "step_reservoir hour P c i s =
      (df[i := new_row (Store (df' ! (i - 1))) (df ! i) (water, imp, exp', ema')], ema', g')"
    unfolding e p h by simp
  have "step_reservoir hour P c i t =
      (df'[i := new_row (Store (df' ! (i - 1))) (df' ! i)
                 (hour c (rrow.Wind (df' ! i)) (Tout (df' ! i)) (Nuclear (df' ! i))
                    (Store (df' ! (i - 1))) ema u)],
       snd (snd (snd (hour c (rrow.Wind (df' ! i)) (Tout (df' ! i)) (Nuclear (df' ! i))
                    (Store (df' ! (i - 1))) ema u))), g')"
    by (simp add: t r step_reservoir_def Let_def)
  then have T: "step_reservoir hour P c i t =
      (df'[i := new_row (Store (df' ! (i - 1))) (df' ! i) (water, imp, exp', ema')], ema', g')"
    unfolding h by simp
  have li: "i < length df" "i < length df'" using i by (simp_all add: s t)
  show "written (fst (step_reservoir hour P c i s) ! i)
           = written (fst (step_reservoir hour P c i t) ! i)"
    unfolding S T using li
    by (simp add: written_def new_row_fields new_row_more_fields e)
  show "exogenous (fst (step_reservoir hour P c i s) ! i) = exogenous (fst s ! i)"
    unfolding S using li
    by (simp add: exogenous_def new_row_fields new_row_more_fields s)
  show "snd (step_reservoir hour P c i s) = snd (step_reservoir hour P c i t)"
    unfolding S T by simp
qed


text \<open>
  Two runs of a loop over the rows, from frames that agree on what the loop reads
  (\<open>inp\<close>): they agree on what the loop writes (\<open>outp\<close>) and on the rest of the state.
\<close>

lemma fold_upt_agree:
  fixes f :: "nat \<Rightarrow> 'r list \<times> 'a \<Rightarrow> 'r list \<times> 'a"
    and inp :: "'r \<Rightarrow> 'x" and outp :: "'r \<Rightarrow> 'y"
  assumes fr: "\<And>i j s. i \<noteq> j \<Longrightarrow> fst (f i s) ! j = fst s ! j"
    and len: "\<And>i s. length (fst (f i s)) = length (fst s)"
    and keep: "\<And>i s. i < length (fst s) \<Longrightarrow> inp (fst (f i s) ! i) = inp (fst s ! i)"
    and agree: "\<And>i s t. \<lbrakk>1 \<le> i; i < length (fst s); length (fst t) = length (fst s);
                   snd s = snd t; inp (fst s ! i) = inp (fst t ! i);
                   outp (fst s ! (i - 1)) = outp (fst t ! (i - 1))\<rbrakk>
                 \<Longrightarrow> outp (fst (f i s) ! i) = outp (fst (f i t) ! i) \<and> snd (f i s) = snd (f i t)"
    and l0: "length (fst s0) = n" "length (fst t0) = n"
    and st0: "snd s0 = snd t0"
    and in0: "\<forall>j<n. inp (fst s0 ! j) = inp (fst t0 ! j)"
    and out0: "outp (fst s0 ! 0) = outp (fst t0 ! 0)"
  shows "1 \<le> k \<Longrightarrow> k \<le> n \<Longrightarrow>
           snd (fold f [1..<k] s0) = snd (fold f [1..<k] t0) \<and>
           (\<forall>j<n. inp (fst (fold f [1..<k] s0) ! j) = inp (fst (fold f [1..<k] t0) ! j)) \<and>
           (\<forall>j<k. outp (fst (fold f [1..<k] s0) ! j) = outp (fst (fold f [1..<k] t0) ! j))"
proof (induction k)
  case 0
  then show ?case by simp
next
  case (Suc k)
  show ?case
  proof (cases "k = 0")
    case True
    then show ?thesis using st0 in0 out0 by simp
  next
    case False
    then have k: "1 \<le> k" "k \<le> n" "k < n" using Suc.prems by simp_all
    let ?S = "fold f [1..<k] s0" and ?T = "fold f [1..<k] t0"
    have ih: "snd ?S = snd ?T" "\<forall>j<n. inp (fst ?S ! j) = inp (fst ?T ! j)"
      "\<forall>j<k. outp (fst ?S ! j) = outp (fst ?T ! j)"
      using Suc.IH [OF k(1,2)] by simp_all
    have ls: "length (fst ?S) = n" "length (fst ?T) = n"
      using fold_length [of f "[1..<k]"] len l0 by simp_all
    have step: "fold f [1..<Suc k] s0 = f k ?S" "fold f [1..<Suc k] t0 = f k ?T"
      using k(1) by simp_all
    have a: "outp (fst (f k ?S) ! k) = outp (fst (f k ?T) ! k) \<and> snd (f k ?S) = snd (f k ?T)"
    proof (rule agree [OF k(1)])
      show "k < length (fst ?S)" using ls k by simp
      show "length (fst ?T) = length (fst ?S)" using ls by simp
      show "snd ?S = snd ?T" by (rule ih(1))
      show "inp (fst ?S ! k) = inp (fst ?T ! k)" using ih(2) k by simp
      show "outp (fst ?S ! (k - 1)) = outp (fst ?T ! (k - 1))" using ih(3) k by simp
    qed
    have b: "inp (fst (f k ?S) ! j) = inp (fst (f k ?T) ! j)" if "j < n" for j
    proof (cases "j = k")
      case True
      then show ?thesis using keep [of k ?S] keep [of k ?T] ls k ih(2) by simp
    next
      case False
      then show ?thesis using fr [of k j] ih(2) that by simp
    qed
    have c: "outp (fst (f k ?S) ! j) = outp (fst (f k ?T) ! j)" if "j < Suc k" for j
    proof (cases "j = k")
      case True
      then show ?thesis using a by simp
    next
      case False
      then have "j < k" using that by simp
      then show ?thesis using fr [of k j] ih(3) False by simp
    qed
    show ?thesis unfolding step using a b c by blast
  qed
qed


lemma init_row_exogenous: "j < length df \<Longrightarrow> exogenous (init_row c df ! j) = exogenous (df ! j)"
  by (cases j) (simp_all add: init_row_def exogenous_def)

lemma init_row_written:
  "df \<noteq> [] \<Longrightarrow> written (init_row c df ! 0)
     = (store0 c, Tout (df ! 0), 0, 0, 0, Tout (df ! 0) - constexp c)"
  by (simp add: init_row_def written_def)

lemma rows_reservoir_agree:
  assumes len: "length df1 = length df2" and ne: "df1 \<noteq> []"
    and exo: "\<forall>j<length df1. exogenous (df1 ! j) = exogenous (df2 ! j)"
  shows "\<forall>j<length df1.
           exogenous (rows_reservoir hour P c df1 ! j) = exogenous (rows_reservoir hour P c df2 ! j) \<and>
           written (rows_reservoir hour P c df1 ! j) = written (rows_reservoir hour P c df2 ! j)"
proof -
  let ?f = "step_reservoir hour P c"
  let ?s0 = "(init_row c df1, 1.1::real, prng_seed P 5)"
  let ?t0 = "(init_row c df2, 1.1::real, prng_seed P 5)"
  let ?n = "length df1"
  have ne2: "df2 \<noteq> []" using len ne by auto
  have n1: "1 \<le> ?n" using ne by (cases df1) simp_all
  have "0 < length df1" using ne by simp
  with exo have "exogenous (df1 ! 0) = exogenous (df2 ! 0)" by blast
  then have t0: "Tout (df1 ! 0) = Tout (df2 ! 0)" by (simp add: exogenous_def)
  have r: "snd (fold ?f [1..<?n] ?s0) = snd (fold ?f [1..<?n] ?t0) \<and>
           (\<forall>j<?n. exogenous (fst (fold ?f [1..<?n] ?s0) ! j)
                     = exogenous (fst (fold ?f [1..<?n] ?t0) ! j)) \<and>
           (\<forall>j<?n. written (fst (fold ?f [1..<?n] ?s0) ! j)
                     = written (fst (fold ?f [1..<?n] ?t0) ! j))"
  proof (rule fold_upt_agree [where f = ?f and inp = exogenous and outp = written
        and ?s0.0 = ?s0 and ?t0.0 = ?t0 and n = ?n and k = ?n])
    show "fst (?f i s) ! j = fst s ! j" if "i \<noteq> j" for i j s
      using that by (rule step_reservoir_frame)
    show "length (fst (?f i s)) = length (fst s)" for i s
      by (rule step_reservoir_length)
    show "exogenous (fst (?f i s) ! i) = exogenous (fst s ! i)" if "i < length (fst s)" for i s
      using step_reservoir_agree(2) [OF that that refl refl refl] .
    show "written (fst (?f i s) ! i) = written (fst (?f i t) ! i) \<and> snd (?f i s) = snd (?f i t)"
      if "1 \<le> i" "i < length (fst s)" "length (fst t) = length (fst s)" "snd s = snd t"
        "exogenous (fst s ! i) = exogenous (fst t ! i)"
        "written (fst s ! (i - 1)) = written (fst t ! (i - 1))" for i s t
    proof -
      have it: "i < length (fst t)" using that by simp
      have p: "Store (fst s ! (i - 1)) = Store (fst t ! (i - 1))"
        using that(6) by (simp add: written_def)
      show ?thesis
        using step_reservoir_agree(1,3) [OF that(2) it that(4,5) p] by simp
    qed
    show "length (fst ?s0) = ?n" by (simp add: init_row_def)
    show "length (fst ?t0) = ?n" using len by (simp add: init_row_def)
    show "snd ?s0 = snd ?t0" by simp
    show "\<forall>j<?n. exogenous (fst ?s0 ! j) = exogenous (fst ?t0 ! j)"
      using exo len by (simp add: init_row_exogenous)
    show "written (fst ?s0 ! 0) = written (fst ?t0 ! 0)"
      using init_row_written [OF ne, of c] init_row_written [OF ne2, of c] t0 by simp
    show "1 \<le> ?n" by (rule n1)
    show "?n \<le> ?n" by simp
  qed
  then show ?thesis unfolding rows_reservoir_def len [symmetric] by simp
qed


lemma hstep_SPB_keep:
  assumes "i < length (fst s)"
  shows "exogenous (fst (hstep_SPB i s) ! i) = exogenous (fst s ! i)"
    "written (fst (hstep_SPB i s) ! i) = written (fst s ! i)"
    "rrow.Residual (fst (hstep_SPB i s) ! i) = rrow.Residual (fst s ! i)"
  using assms
  by (cases s rule: prod_cases3; simp add: hstep_SPB_def Let_def exogenous_def written_def)+

lemma hstep_SPB_agree:
  assumes "i < length (fst s)" and "length (fst t) = length (fst s)" and "snd s = snd t"
    and "rrow.Residual (fst s ! i) = rrow.Residual (fst t ! i)"
    and "Hydrogen (fst s ! (i - 1)) = Hydrogen (fst t ! (i - 1))"
    and "rrow.eStore (fst s ! (i - 1)) = rrow.eStore (fst t ! (i - 1))"
  shows "Hydrogen (fst (hstep_SPB i s) ! i) = Hydrogen (fst (hstep_SPB i t) ! i)"
    "rrow.eStore (fst (hstep_SPB i s) ! i) = rrow.eStore (fst (hstep_SPB i t) ! i)"
    "snd (hstep_SPB i s) = snd (hstep_SPB i t)"
  using assms
  by (cases s rule: prod_cases3; cases t rule: prod_cases3; simp add: hstep_SPB_def Let_def)+

lemma hstep_SE300_keep:
  assumes "i < length (fst s)"
  shows "exogenous (fst (hstep_SE300 c i s) ! i) = exogenous (fst s ! i)"
    "written (fst (hstep_SE300 c i s) ! i) = written (fst s ! i)"
    "rrow.Residual (fst (hstep_SE300 c i s) ! i) = rrow.Residual (fst s ! i)"
  using assms
  by (cases s rule: prod_cases5; simp add: hstep_SE300_def Let_def exogenous_def written_def)+

lemma hstep_SE300_agree:
  assumes "i < length (fst s)" and "length (fst t) = length (fst s)" and "snd s = snd t"
    and "rrow.Residual (fst s ! i) = rrow.Residual (fst t ! i)"
    and "Hydrogen (fst s ! (i - 1)) = Hydrogen (fst t ! (i - 1))"
    and "rrow.eStore (fst s ! (i - 1)) = rrow.eStore (fst t ! (i - 1))"
  shows "Hydrogen (fst (hstep_SE300 c i s) ! i) = Hydrogen (fst (hstep_SE300 c i t) ! i)"
    "rrow.eStore (fst (hstep_SE300 c i s) ! i) = rrow.eStore (fst (hstep_SE300 c i t) ! i)"
    "snd (hstep_SE300 c i s) = snd (hstep_SE300 c i t)"
  using assms
  by (cases s rule: prod_cases5; cases t rule: prod_cases5; simp add: hstep_SE300_def Let_def)+

lemma init_hydrogen_inputs:
  assumes "j < length a"
  shows "exogenous (init_hydrogen (residual_col a) ! j) = exogenous (a ! j)"
    "written (init_hydrogen (residual_col a) ! j) = written (a ! j)"
    "rrow.Residual (init_hydrogen (residual_col a) ! j) = rrow.Pout (a ! j) - Tout (a ! j)"
  using assms
  by (cases j; simp add: init_hydrogen_def residual_col_def exogenous_def written_def)+

lemma init_hydrogen_row0:
  "a \<noteq> [] \<Longrightarrow> Hydrogen (init_hydrogen (residual_col a) ! 0) = 0 \<and>
     rrow.eStore (init_hydrogen (residual_col a) ! 0) = 0"
  by (simp add: init_hydrogen_def residual_col_def)

lemma rrow_eqI:
  fixes r r' :: rrow
  assumes "exogenous r = exogenous r'" "written r = written r'"
    "rrow.Residual r = rrow.Residual r'" "Hydrogen r = Hydrogen r'"
    "rrow.eStore r = rrow.eStore r'"
  shows "r = r'"
  using assms by (cases r; cases r'; simp add: exogenous_def written_def)


lemma hydrogen_SPB_agree:
  assumes len: "length a = length b" and ne: "a \<noteq> []"
    and ab: "\<forall>j<length a. exogenous (a ! j) = exogenous (b ! j) \<and> written (a ! j) = written (b ! j)"
  shows "fst (hydrogen_SPB a) = fst (hydrogen_SPB b)"
proof -
  let ?f = "hstep_SPB"
  let ?inp = "\<lambda>r. (exogenous r, written r, rrow.Residual r)"
  let ?outp = "\<lambda>r. (Hydrogen r, rrow.eStore r)"
  let ?s0 = "(init_hydrogen (residual_col a), 0::real, 0::real)"
  let ?t0 = "(init_hydrogen (residual_col b), 0::real, 0::real)"
  let ?n = "length a"
  have ne2: "b \<noteq> []" using len ne by auto
  have n1: "1 \<le> ?n" using ne by (cases a) simp_all
  have pt: "rrow.Pout (a ! j) - Tout (a ! j) = rrow.Pout (b ! j) - Tout (b ! j)" if "j < ?n" for j
  proof -
    have "exogenous (a ! j) = exogenous (b ! j)" "written (a ! j) = written (b ! j)"
      using ab that by simp_all
    then show ?thesis by (simp add: exogenous_def written_def)
  qed
  have r: "snd (fold ?f [1..<?n] ?s0) = snd (fold ?f [1..<?n] ?t0) \<and>
           (\<forall>j<?n. ?inp (fst (fold ?f [1..<?n] ?s0) ! j) = ?inp (fst (fold ?f [1..<?n] ?t0) ! j)) \<and>
           (\<forall>j<?n. ?outp (fst (fold ?f [1..<?n] ?s0) ! j) = ?outp (fst (fold ?f [1..<?n] ?t0) ! j))"
  proof (rule fold_upt_agree [where f = ?f and inp = ?inp and outp = ?outp
        and ?s0.0 = ?s0 and ?t0.0 = ?t0 and n = ?n and k = ?n])
    show "fst (?f i s) ! j = fst s ! j" if "i \<noteq> j" for i j s
      using that by (rule hstep_SPB_frame)
    show "length (fst (?f i s)) = length (fst s)" for i s
      by (rule hstep_SPB_length)
    show "?inp (fst (?f i s) ! i) = ?inp (fst s ! i)" if "i < length (fst s)" for i s
      using hstep_SPB_keep [OF that] by simp
    show "?outp (fst (?f i s) ! i) = ?outp (fst (?f i t) ! i) \<and> snd (?f i s) = snd (?f i t)"
      if "1 \<le> i" "i < length (fst s)" "length (fst t) = length (fst s)" "snd s = snd t"
        "?inp (fst s ! i) = ?inp (fst t ! i)"
        "?outp (fst s ! (i - 1)) = ?outp (fst t ! (i - 1))" for i s t
    proof -
      have x: "rrow.Residual (fst s ! i) = rrow.Residual (fst t ! i)"
        "Hydrogen (fst s ! (i - 1)) = Hydrogen (fst t ! (i - 1))"
        "rrow.eStore (fst s ! (i - 1)) = rrow.eStore (fst t ! (i - 1))"
        using that(5,6) by simp_all
      show ?thesis using hstep_SPB_agree [OF that(2,3,4) x] by simp
    qed
    show "length (fst ?s0) = ?n" by (simp add: init_hydrogen_length)
    show "length (fst ?t0) = ?n" using len by (simp add: init_hydrogen_length)
    show "snd ?s0 = snd ?t0" by simp
    show "\<forall>j<?n. ?inp (fst ?s0 ! j) = ?inp (fst ?t0 ! j)"
      using ab len pt by (simp add: init_hydrogen_inputs)
    show "?outp (fst ?s0 ! 0) = ?outp (fst ?t0 ! 0)"
      using init_hydrogen_row0 [OF ne] init_hydrogen_row0 [OF ne2] by simp
    show "1 \<le> ?n" by (rule n1)
    show "?n \<le> ?n" by simp
  qed
  show ?thesis
  proof (rule nth_equalityI)
    show "length (fst (hydrogen_SPB a)) = length (fst (hydrogen_SPB b))"
      using len by (simp add: hydrogen_SPB_length)
    fix j assume "j < length (fst (hydrogen_SPB a))"
    then have j: "j < ?n" by (simp add: hydrogen_SPB_length)
    have "?inp (fst (hydrogen_SPB a) ! j) = ?inp (fst (hydrogen_SPB b) ! j)"
      "?outp (fst (hydrogen_SPB a) ! j) = ?outp (fst (hydrogen_SPB b) ! j)"
      using r j unfolding hydrogen_SPB_def len [symmetric] by simp_all
    then show "fst (hydrogen_SPB a) ! j = fst (hydrogen_SPB b) ! j"
      by (intro rrow_eqI) simp_all
  qed
qed

lemma hydrogen_SE300_agree:
  assumes len: "length a = length b" and ne: "a \<noteq> []"
    and ab: "\<forall>j<length a. exogenous (a ! j) = exogenous (b ! j) \<and> written (a ! j) = written (b ! j)"
  shows "fst (hydrogen_SE300 c a) = fst (hydrogen_SE300 c b)"
proof -
  let ?f = "hstep_SE300 c"
  let ?inp = "\<lambda>r. (exogenous r, written r, rrow.Residual r)"
  let ?outp = "\<lambda>r. (Hydrogen r, rrow.eStore r)"
  let ?s0 = "(init_hydrogen (residual_col a), 0::real, 0::real, 0::real, 0::real)"
  let ?t0 = "(init_hydrogen (residual_col b), 0::real, 0::real, 0::real, 0::real)"
  let ?n = "length a"
  have ne2: "b \<noteq> []" using len ne by auto
  have n1: "1 \<le> ?n" using ne by (cases a) simp_all
  have pt: "rrow.Pout (a ! j) - Tout (a ! j) = rrow.Pout (b ! j) - Tout (b ! j)" if "j < ?n" for j
  proof -
    have "exogenous (a ! j) = exogenous (b ! j)" "written (a ! j) = written (b ! j)"
      using ab that by simp_all
    then show ?thesis by (simp add: exogenous_def written_def)
  qed
  have r: "snd (fold ?f [1..<?n] ?s0) = snd (fold ?f [1..<?n] ?t0) \<and>
           (\<forall>j<?n. ?inp (fst (fold ?f [1..<?n] ?s0) ! j) = ?inp (fst (fold ?f [1..<?n] ?t0) ! j)) \<and>
           (\<forall>j<?n. ?outp (fst (fold ?f [1..<?n] ?s0) ! j) = ?outp (fst (fold ?f [1..<?n] ?t0) ! j))"
  proof (rule fold_upt_agree [where f = ?f and inp = ?inp and outp = ?outp
        and ?s0.0 = ?s0 and ?t0.0 = ?t0 and n = ?n and k = ?n])
    show "fst (?f i s) ! j = fst s ! j" if "i \<noteq> j" for i j s
      using that by (rule hstep_SE300_frame)
    show "length (fst (?f i s)) = length (fst s)" for i s
      by (rule hstep_SE300_length)
    show "?inp (fst (?f i s) ! i) = ?inp (fst s ! i)" if "i < length (fst s)" for i s
      using hstep_SE300_keep [OF that] by simp
    show "?outp (fst (?f i s) ! i) = ?outp (fst (?f i t) ! i) \<and> snd (?f i s) = snd (?f i t)"
      if "1 \<le> i" "i < length (fst s)" "length (fst t) = length (fst s)" "snd s = snd t"
        "?inp (fst s ! i) = ?inp (fst t ! i)"
        "?outp (fst s ! (i - 1)) = ?outp (fst t ! (i - 1))" for i s t
    proof -
      have x: "rrow.Residual (fst s ! i) = rrow.Residual (fst t ! i)"
        "Hydrogen (fst s ! (i - 1)) = Hydrogen (fst t ! (i - 1))"
        "rrow.eStore (fst s ! (i - 1)) = rrow.eStore (fst t ! (i - 1))"
        using that(5,6) by simp_all
      show ?thesis using hstep_SE300_agree [OF that(2,3,4) x] by simp
    qed
    show "length (fst ?s0) = ?n" by (simp add: init_hydrogen_length)
    show "length (fst ?t0) = ?n" using len by (simp add: init_hydrogen_length)
    show "snd ?s0 = snd ?t0" by simp
    show "\<forall>j<?n. ?inp (fst ?s0 ! j) = ?inp (fst ?t0 ! j)"
      using ab len pt by (simp add: init_hydrogen_inputs)
    show "?outp (fst ?s0 ! 0) = ?outp (fst ?t0 ! 0)"
      using init_hydrogen_row0 [OF ne] init_hydrogen_row0 [OF ne2] by simp
    show "1 \<le> ?n" by (rule n1)
    show "?n \<le> ?n" by simp
  qed
  show ?thesis
  proof (rule nth_equalityI)
    show "length (fst (hydrogen_SE300 c a)) = length (fst (hydrogen_SE300 c b))"
      using len by (simp add: hydrogen_SE300_length)
    fix j assume "j < length (fst (hydrogen_SE300 c a))"
    then have j: "j < ?n" by (simp add: hydrogen_SE300_length)
    have "?inp (fst (hydrogen_SE300 c a) ! j) = ?inp (fst (hydrogen_SE300 c b) ! j)"
      "?outp (fst (hydrogen_SE300 c a) ! j) = ?outp (fst (hydrogen_SE300 c b) ! j)"
      using r j unfolding hydrogen_SE300_def len [symmetric] by simp_all
    then show "fst (hydrogen_SE300 c a) ! j = fst (hydrogen_SE300 c b) ! j"
      by (intro rrow_eqI) simp_all
  qed
qed


lemma main_agree:
  assumes "map exogenous df1 = map exogenous df2"
  shows "main_SPB P c g1 df1 = main_SPB P c g2 df2"
    and "main_SE300 P c g1 df1 = main_SE300 P c g2 df2"
proof -
  have len: "length df1 = length df2" using assms by (rule map_eq_imp_length_eq)
  have exo: "\<forall>j<length df1. exogenous (df1 ! j) = exogenous (df2 ! j)"
  proof (intro allI impI)
    fix j assume j: "j < length df1"
    then have "map exogenous df1 ! j = exogenous (df1 ! j)"
      "map exogenous df2 ! j = exogenous (df2 ! j)"
      using len by simp_all
    then show "exogenous (df1 ! j) = exogenous (df2 ! j)" using assms by simp
  qed
  show "main_SPB P c g1 df1 = main_SPB P c g2 df2"
  proof (cases "df1 = []")
    case True
    then have "df2 = []" using len by simp
    with True show ?thesis
      by (simp add: main_SPB_def balance_SPB_def balance_reservoir_def)
  next
    case False
    then have ne2: "df2 \<noteq> []" using len by auto
    let ?a = "rows_reservoir hour_SPB P c df1" and ?b = "rows_reservoir hour_SPB P c df2"
    have l: "length ?a = length ?b" using len by (simp add: rows_reservoir_length)
    have ne: "?a \<noteq> []" using False rows_reservoir_length [of hour_SPB P c df1] by auto
    have ab: "\<forall>j<length ?a. exogenous (?a ! j) = exogenous (?b ! j) \<and>
                written (?a ! j) = written (?b ! j)"
      using rows_reservoir_agree [OF len False exo, of hour_SPB P c]
      by (simp add: rows_reservoir_length)
    show ?thesis
      unfolding main_SPB_Inr [OF False] main_SPB_Inr [OF ne2]
      using hydrogen_SPB_agree [OF l ne ab] by simp
  qed
  show "main_SE300 P c g1 df1 = main_SE300 P c g2 df2"
  proof (cases "df1 = []")
    case True
    then have "df2 = []" using len by simp
    with True show ?thesis
      by (simp add: main_SE300_def balance_SE300_def balance_reservoir_def)
  next
    case False
    then have ne2: "df2 \<noteq> []" using len by auto
    let ?a = "rows_reservoir hour_SE300 P c df1" and ?b = "rows_reservoir hour_SE300 P c df2"
    have l: "length ?a = length ?b" using len by (simp add: rows_reservoir_length)
    have ne: "?a \<noteq> []" using False rows_reservoir_length [of hour_SE300 P c df1] by auto
    have ab: "\<forall>j<length ?a. exogenous (?a ! j) = exogenous (?b ! j) \<and>
                written (?a ! j) = written (?b ! j)"
      using rows_reservoir_agree [OF len False exo, of hour_SE300 P c]
      by (simp add: rows_reservoir_length)
    show ?thesis
      unfolding main_SE300_Inr [OF False] main_SE300_Inr [OF ne2]
      using hydrogen_SE300_agree [OF l ne ab] by simp
  qed
qed

text \<open>
  C9. A run of SwedenPowerBalance.py (and of SE300wind.py) is determined by the
  configuration, the random module and the columns the frame has before \<open>balance()\<close>:
  \<open>balance()\<close> seeds the generator itself, and every other cell is written before it is
  read. Two runs on frames with the same input columns, from any two generator states,
  leave the same frame, hour by hour and column by column; and the frame and generator
  state that \<open>balance()\<close> leaves do not depend on the state it finds the generator in.
\<close>

theorem seeded_runs_identical:
  assumes "map exogenous df1 = map exogenous df2"
  shows "main_SPB P c g1 df1 = main_SPB P c g2 df2 \<and>
         main_SE300 P c g1 df1 = main_SE300 P c g2 df2 \<and>
         balance_SPB P c g1 df1 = balance_SPB P c g2 df1 \<and>
         balance_SE300 P c g1 df1 = balance_SE300 P c g2 df1"
proof (intro conjI)
  show "main_SPB P c g1 df1 = main_SPB P c g2 df2"
    by (rule main_agree(1) [OF assms])
  show "main_SE300 P c g1 df1 = main_SE300 P c g2 df2"
    by (rule main_agree(2) [OF assms])
  show "balance_SPB P c g1 df1 = balance_SPB P c g2 df1"
    and "balance_SE300 P c g1 df1 = balance_SE300 P c g2 df1"
    by (simp_all add: balance_SPB_def balance_SE300_def balance_reservoir_def)
qed

theorem seeded_runs_identical_witness:
  "map exogenous example_frame
     = map exogenous (map (\<lambda>r. r\<lparr>Store := 1, Waout := 7, Hydrogen := 3\<rparr>) example_frame) \<and>
   main_SPB (replay [0.6229016948897019, 0.7417869892607294]) SPB_config [] example_frame
     = main_SPB (replay [0.6229016948897019, 0.7417869892607294]) SPB_config [0.5]
         (map (\<lambda>r. r\<lparr>Store := 1, Waout := 7, Hydrogen := 3\<rparr>) example_frame) \<and>
   main_SE300 (replay [0.6229016948897019, 0.7417869892607294]) SPB_config [] example_frame
     = main_SE300 (replay [0.6229016948897019, 0.7417869892607294]) SPB_config [0.5]
         (map (\<lambda>r. r\<lparr>Store := 1, Waout := 7, Hydrogen := 3\<rparr>) example_frame) \<and>
   balance_SPB (replay [0.6229016948897019, 0.7417869892607294]) SPB_config [] example_frame
     = balance_SPB (replay [0.6229016948897019, 0.7417869892607294]) SPB_config [0.5]
         example_frame \<and>
   balance_SE300 (replay [0.6229016948897019, 0.7417869892607294]) SPB_config [] example_frame
     = balance_SE300 (replay [0.6229016948897019, 0.7417869892607294]) SPB_config [0.5]
         example_frame"
proof -
  have h: "map exogenous example_frame
     = map exogenous (map (\<lambda>r. r\<lparr>Store := 1, Waout := 7, Hydrogen := 3\<rparr>) example_frame)"
    by (simp add: exogenous_def)
  show ?thesis
    by (rule conjI [OF h seeded_runs_identical [OF h]])
qed

end
